theory Spec2Isabelle
  imports Main "HOL-Library.Word" "HOL-Library.Signed_Division" "HOL-Library.Monad_Syntax"
begin

unbundle bit_operations_syntax

section \<open>Reflex: the reaction-time game of src/src/main.c (first variant, lines 1-766)\<close>

text \<open>
  The program is a single-threaded C program for an LPC13xx board.  Its globals
  (\<^verbatim>\<open>selectedIndex\<close>, \<^verbatim>\<open>tilt\<close>, \<^verbatim>\<open>fontColor\<close>, \<^verbatim>\<open>backgroundColor\<close>) and the
  peripherals it drives are collected in one record, \<open>machine\<close>, that every function
  takes and returns.  Sensor readings (joystick, accelerometer, light sensor, \<^verbatim>\<open>rand()\<close>)
  are inputs of the functions that read them.  Machine integers are words:
  \<^verbatim>\<open>uint8_t\<close> and \<^verbatim>\<open>int8_t\<close> are \<open>8 word\<close> (read with \<open>unat\<close> and \<open>sint\<close>),
  \<^verbatim>\<open>uint16_t\<close> is \<open>16 word\<close>, \<^verbatim>\<open>uint32_t\<close> is \<open>32 word\<close>.
\<close>

subsection \<open>Data\<close>

type_synonym uint8_t = "8 word"
type_synonym int8_t = "8 word"
type_synonym uint16_t = "16 word"
type_synonym uint32_t = "32 word"

text \<open>The two colours of \<^verbatim>\<open>oled.h\<close> that the program uses.\<close>

datatype oled_color_t = OLED_COLOR_BLACK | OLED_COLOR_WHITE

text \<open>\<^verbatim>\<open>typedef struct { int8_t xOffset, yOffset, zOffset, x, y, z; } TiltState;\<close>
  The current readings \<^verbatim>\<open>x\<close>, \<^verbatim>\<open>y\<close>, \<^verbatim>\<open>z\<close> are the fields \<open>xCur\<close>, \<open>yCur\<close>, \<open>zCur\<close>.\<close>

record TiltState =
  xOffset :: int8_t
  yOffset :: int8_t
  zOffset :: int8_t
  xCur :: int8_t
  yCur :: int8_t
  zCur :: int8_t

text \<open>What the program sends to the display, the LED bar and the seven-segment digit,
  one entry per call, in order.  A formatted string is kept as its format and argument.\<close>

datatype msg = Lit string | Fmt string nat

datatype out_event =
    ClearScreen oled_color_t
  | PutString nat nat string oled_color_t oled_color_t
  | Centered msg oled_color_t oled_color_t
  | DrawCircle oled_color_t
  | FillCircle oled_color_t
  | SetLeds uint16_t uint16_t
  | SetChar nat

text \<open>
  \<open>clock_us\<close> is the logical time in microseconds: only the delay functions advance it.
  \<open>speaker\<close> lists every write to the speaker pin P1.2 with the logical time of the
  write (\<open>True\<close> for \<^verbatim>\<open>P1_2_HIGH()\<close>, \<open>False\<close> for \<^verbatim>\<open>P1_2_LOW()\<close>).
  \<open>eeprom\<close> is the persistent store, a byte for every address.
\<close>

record machine =
  clock_us :: nat
  speaker :: "(nat \<times> bool) list"
  eeprom :: "nat \<Rightarrow> uint8_t"
  fontColor :: oled_color_t
  backgroundColor :: oled_color_t
  tilt :: TiltState
  selectedIndex :: int
  outputs :: "out_event list"

text \<open>The bits of \<^verbatim>\<open>joystick_read()\<close> are named in \<^verbatim>\<open>joystick.h\<close>, which is not part of
  the sources: the three masks the program uses are parameters of the model.\<close>

record joystick_bits =
  JOYSTICK_CENTER :: uint8_t
  JOYSTICK_UP :: uint8_t
  JOYSTICK_DOWN :: uint8_t

definition MENU_ITEM_COUNT :: int where
  "MENU_ITEM_COUNT = 5"

definition menuItems :: "string list" where
  "menuItems = [''Start game'', ''Reset score'', ''High score'', ''Credits'', ''Exit'']"

definition notes_tbl :: "uint32_t list" where
  "notes_tbl = [2272, 2024, 3816, 3401, 3215, 3030, 2865, 2703, 2551, 2146,
            1136, 1012, 1912, 1703, 1517, 1432, 1275]"

subsection \<open>Peripherals\<close>

text \<open>Modelled from the spec: \<^verbatim>\<open>delay32Ms\<close> and \<^verbatim>\<open>delay32Us\<close> (timer32.h, not in the
  sources) block for the given number of milliseconds or microseconds; the caller's
  logical time advances by that much.\<close>

definition delay32Us :: "uint32_t \<Rightarrow> machine \<Rightarrow> machine" where
  "delay32Us us m = m\<lparr>clock_us := clock_us m + unat us\<rparr>"

definition delay32Ms :: "uint32_t \<Rightarrow> machine \<Rightarrow> machine" where
  "delay32Ms ms m = m\<lparr>clock_us := clock_us m + 1000 * unat ms\<rparr>"

text \<open>Modelled from the spec: the persistent store (eeprom.h, not in the sources) is
  \<^verbatim>\<open>writeBytes(address, length, data)\<close> and \<^verbatim>\<open>readBytes(address, length)\<close> on a byte
  array, infallible.  The argument order is the one of the calls in main.c:
  buffer, offset, length.\<close>

definition eeprom_write :: "uint8_t list \<Rightarrow> nat \<Rightarrow> nat \<Rightarrow> machine \<Rightarrow> machine" where
  "eeprom_write buf offset len m =
     m\<lparr>eeprom := (\<lambda>a. if offset \<le> a \<and> a < offset + len then buf ! (a - offset)
                         else eeprom m a)\<rparr>"

definition eeprom_read :: "nat \<Rightarrow> nat \<Rightarrow> machine \<Rightarrow> uint8_t list" where
  "eeprom_read offset len m = map (eeprom m) [offset ..< offset + len]"

definition P1_2_HIGH :: "machine \<Rightarrow> machine" where
  "P1_2_HIGH m = m\<lparr>speaker := speaker m @ [(clock_us m, True)]\<rparr>"

definition P1_2_LOW :: "machine \<Rightarrow> machine" where
  "P1_2_LOW m = m\<lparr>speaker := speaker m @ [(clock_us m, False)]\<rparr>"

definition emit :: "out_event \<Rightarrow> machine \<Rightarrow> machine" where
  "emit ev m = m\<lparr>outputs := outputs m @ [ev]\<rparr>"

subsection \<open>ScoreStore: \<^verbatim>\<open>set_high_score\<close> and \<^verbatim>\<open>read_high_score\<close>\<close>

text \<open>
  \<^verbatim>\<open>buf[0] = (value & 0xFF00) >> 8;  buf[1] = value & 0x00FF;  eeprom_write(buf, 8, 2);\<close>
\<close>

definition set_high_score :: "uint16_t \<Rightarrow> machine \<Rightarrow> machine" where
  "set_high_score v m =
     (let buf = [ucast (drop_bit 8 (v AND 0xFF00)) :: uint8_t, ucast (v AND 0x00FF)]
      in eeprom_write buf 8 2 m)"

text \<open>
  \<^verbatim>\<open>eeprom_read(readBuf, 8, 2);  return ((uint16_t)readBuf[0] << 8) | (uint16_t)readBuf[1];\<close>
\<close>

definition read_high_score :: "machine \<Rightarrow> uint16_t" where
  "read_high_score m =
     (let readBuf = eeprom_read 8 2 m
      in push_bit 8 (ucast (readBuf ! 0) :: uint16_t) OR ucast (readBuf ! 1))"

subsection \<open>Display helpers\<close>

text \<open>
  \<^verbatim>\<open>oled_putStringHorizontallyCentered(y, text)\<close> prints \<open>text\<close> in the current theme.
  The position (\<open>y\<close>, and the \<open>x\<close> computed from \<^verbatim>\<open>OLED_DISPLAY_WIDTH\<close>) depends on
  constants of oled.h and is not recorded.
\<close>

definition oled_putStringHorizontallyCentered :: "msg \<Rightarrow> machine \<Rightarrow> machine" where
  "oled_putStringHorizontallyCentered txt m =
     emit (Centered txt (fontColor m) (backgroundColor m)) m"

definition oled_clearScreen :: "machine \<Rightarrow> machine" where
  "oled_clearScreen m = emit (ClearScreen (backgroundColor m)) m"

text \<open>\<^verbatim>\<open>ledOn = (uint16_t)0x01 << pos;  pca9532_setLeds(ledOn, 0xffff);\<close>\<close>

definition set_led_bar_position :: "uint8_t \<Rightarrow> machine \<Rightarrow> machine" where
  "set_led_bar_position pos m = emit (SetLeds (push_bit (unat pos) 1) 0xffff) m"

definition clear_led_bar :: "machine \<Rightarrow> machine" where
  "clear_led_bar m = emit (SetLeds 0 0xffff) m"

text \<open>\<^verbatim>\<open>for (i = 0; i < MENU_ITEM_COUNT; i++) { y = 2 + i * 12;
  snprintf(buffer, 20, "%c %s", (i == selectedIndex ? '>' : ' '), menuItems[i]);
  oled_putString(4, y, buffer, fontColor, backgroundColor); }\<close>\<close>

definition draw_menu :: "machine \<Rightarrow> machine" where
  "draw_menu m =
     foldl (\<lambda>acc i.
        emit (PutString 4 (2 + i * 12)
                (take 19 ((if int i = selectedIndex m then CHR ''>'' else CHR '' '')
                          # CHR '' '' # menuItems ! i))
                (fontColor m) (backgroundColor m)) acc)
       (oled_clearScreen m) [0 ..< nat MENU_ITEM_COUNT]"

subsection \<open>AudioFeedback: \<^verbatim>\<open>play_note\<close>\<close>

text \<open>
  \<^verbatim>\<open>while (t < durationMs * 1000) { P1_2_HIGH(); delay32Us(0, note / 4);
  P1_2_LOW(); delay32Us(0, note / 4); t += note; }\<close>
  All of \<open>t\<close>, \<open>note\<close> and \<open>durationMs * 1000\<close> are 32-bit and wrap, so the loop need
  not end: not returning is the value \<open>None\<close>.
\<close>

partial_function (option) play_note_loop ::
  "uint32_t \<Rightarrow> uint32_t \<Rightarrow> uint32_t \<Rightarrow> machine \<Rightarrow> machine option" where
  "play_note_loop note durationMs t m =
     (if t < durationMs * 1000
      then play_note_loop note durationMs (t + note)
             (delay32Us (note div 4) (P1_2_LOW (delay32Us (note div 4) (P1_2_HIGH m))))
      else Some m)"

definition play_note :: "uint32_t \<Rightarrow> uint32_t \<Rightarrow> machine \<Rightarrow> machine option" where
  "play_note note durationMs m =
     (if note > 0 then play_note_loop note durationMs 0 m
      else Some (delay32Ms durationMs m))"

subsection \<open>ThemeAdapter: \<^verbatim>\<open>adjust_theme\<close>\<close>

text \<open>The argument \<open>reading\<close> is the value of \<^verbatim>\<open>light_read()\<close>.  The result is the
  returned \<^verbatim>\<open>uint8_t\<close> and the machine after the call.\<close>

definition adjust_theme :: "uint32_t \<Rightarrow> machine \<Rightarrow> (uint8_t \<times> machine) option" where
  "adjust_theme reading m =
     (let prev_fontColor = fontColor m;
          m1 = (if reading < 125
                then m\<lparr>fontColor := OLED_COLOR_WHITE, backgroundColor := OLED_COLOR_BLACK\<rparr>
                else m\<lparr>fontColor := OLED_COLOR_BLACK, backgroundColor := OLED_COLOR_WHITE\<rparr>)
      in if fontColor m1 = prev_fontColor then Some (0, m1)
         else do { m2 \<leftarrow> play_note (notes_tbl ! 0) 200 m1; Some (1, m2) })"

subsection \<open>TiltMonitor: \<^verbatim>\<open>init_tilt_calibration\<close> and \<^verbatim>\<open>is_board_tilted\<close>\<close>

text \<open>\<^verbatim>\<open>acc_read(&tilt.x, &tilt.y, &tilt.z)\<close> stores the sample of the accelerometer.\<close>

definition acc_read :: "int8_t \<times> int8_t \<times> int8_t \<Rightarrow> machine \<Rightarrow> machine" where
  "acc_read sample m =
     (case sample of (ax, ay, az) \<Rightarrow> m\<lparr>tilt := (tilt m)\<lparr>xCur := ax, yCur := ay, zCur := az\<rparr>\<rparr>)"

text \<open>\<^verbatim>\<open>tilt.xOffset = -tilt.x;  tilt.yOffset = -tilt.y;  tilt.zOffset = 64 - tilt.z;\<close>
  The results are stored in \<^verbatim>\<open>int8_t\<close> fields, so they are taken modulo 256.\<close>

definition init_tilt_calibration :: "int8_t \<times> int8_t \<times> int8_t \<Rightarrow> machine \<Rightarrow> machine" where
  "init_tilt_calibration sample m =
     (let m1 = acc_read sample m; t = tilt m1
      in m1\<lparr>tilt := t\<lparr>xOffset := - xCur t, yOffset := - yCur t, zOffset := 64 - zCur t\<rparr>\<rparr>)"

text \<open>\<^verbatim>\<open>tilt.x += tilt.xOffset; ...;
  if ((tilt.x > 30) || (tilt.x < -30) || (tilt.y > 30) || (tilt.y < -30)) return 1;  return 0;\<close>
  The comparisons are on the signed values of the \<^verbatim>\<open>int8_t\<close> fields.\<close>

definition is_board_tilted :: "int8_t \<times> int8_t \<times> int8_t \<Rightarrow> machine \<Rightarrow> uint32_t \<times> machine" where
  "is_board_tilted sample m =
     (let m1 = acc_read sample m; t = tilt m1;
          t1 = t\<lparr>xCur := xCur t + xOffset t\<rparr>;
          t2 = t1\<lparr>yCur := yCur t1 + yOffset t1\<rparr>;
          t3 = t2\<lparr>zCur := zCur t2 + zOffset t2\<rparr>;
          m2 = m1\<lparr>tilt := t3\<rparr>
      in if sint (xCur t3) > 30 \<or> sint (xCur t3) < - 30
            \<or> sint (yCur t3) > 30 \<or> sint (yCur t3) < - 30
         then (1, m2) else (0, m2))"

subsection \<open>ReactionTimer: \<^verbatim>\<open>wait_for_joystick_center_click\<close> and \<^verbatim>\<open>measure_reaction_time\<close>\<close>

text \<open>
  \<^verbatim>\<open>while ((joystick_read() & JOYSTICK_CENTER) == 0) { delay32Ms(0, 1); }\<close>
  The list holds the values that the successive calls of \<^verbatim>\<open>joystick_read()\<close> return;
  the result holds the samples not yet read.  The loop has no timeout: when every sample
  reads released the function has not returned, which is \<open>None\<close>.
\<close>

fun wait_for_joystick_center_click ::
  "joystick_bits \<Rightarrow> uint8_t list \<Rightarrow> machine \<Rightarrow> (uint8_t list \<times> machine) option" where
  "wait_for_joystick_center_click jb [] m = None"
| "wait_for_joystick_center_click jb (j # js) m =
     (if j AND JOYSTICK_CENTER jb = 0
      then wait_for_joystick_center_click jb js (delay32Ms 1 m)
      else Some (js, m))"

text \<open>
  Modelled from the spec: timer 1 (\<^verbatim>\<open>LPC_TMR32B1\<close>, a hardware register) is reset and started
  as a free-running millisecond counter; reading \<^verbatim>\<open>TC\<close> gives the whole milliseconds of
  logical time since the start, as a 32-bit value.

  \<^verbatim>\<open>... TCR = 0x02; ... TCR = 0x01;  wait_for_joystick_center_click();
  reactionTimeMs = LPC_TMR32B1->TC;  return reactionTimeMs;\<close>
\<close>

definition measure_reaction_time ::
  "joystick_bits \<Rightarrow> uint8_t list \<Rightarrow> machine \<Rightarrow> (uint32_t \<times> uint8_t list \<times> machine) option" where
  "measure_reaction_time jb js m =
     (let started = clock_us m
      in case wait_for_joystick_center_click jb js m of
           None \<Rightarrow> None
         | Some (js', m') \<Rightarrow>
             Some (of_nat ((clock_us m' - started) div 1000), js', m'))"

subsection \<open>C strings in fixed buffers\<close>

text \<open>Writing past the end of an array is undefined behaviour in C: the model stops
  there with a fault instead of a result.\<close>

datatype fault = Buffer_Overflow

text \<open>The decimal digits that \<^verbatim>\<open>%u\<close> prints.\<close>

fun decimal :: "nat \<Rightarrow> string" where
  "decimal n =
     (if n < 10 then [char_of (48 + n)]
      else decimal (n div 10) @ [char_of (48 + n mod 10)])"

declare decimal.simps [simp del]

text \<open>\<^verbatim>\<open>sprintf(buf, "%u", v)\<close> into a buffer of \<open>cap\<close> bytes writes the digits and the
  terminating zero byte; \<^verbatim>\<open>strcat(buf, src)\<close> writes \<open>src\<close> after the string in \<open>buf\<close>, and
  the terminating zero byte.  Neither checks the size of the buffer.\<close>

definition sprintf_u :: "nat \<Rightarrow> uint32_t \<Rightarrow> fault + string" where
  "sprintf_u cap v =
     (if length (decimal (unat v)) + 1 \<le> cap then Inr (decimal (unat v))
      else Inl Buffer_Overflow)"

definition strcat :: "nat \<Rightarrow> string \<Rightarrow> string \<Rightarrow> fault + string" where
  "strcat cap dest src =
     (if length dest + length src + 1 \<le> cap then Inr (dest @ src)
      else Inl Buffer_Overflow)"

subsection \<open>GameSession: \<^verbatim>\<open>start_game\<close>\<close>

text \<open>\<^verbatim>\<open>uint32_t randomDelay = (rand() % 3000) + 500;\<close>  The argument is the \<^verbatim>\<open>int\<close> that
  \<^verbatim>\<open>rand()\<close> returned; \<^verbatim>\<open>%\<close> truncates towards zero (\<open>smod\<close>), and the sum is
  converted to \<^verbatim>\<open>uint32_t\<close>.\<close>

definition random_delay :: "int \<Rightarrow> uint32_t" where
  "random_delay r = word_of_int (r smod 3000 + 500)"

text \<open>Lines 532-546 of a round: progress indicators, theme, the outlined circle, the cue
  tone, the random hold and the filled circle.  \<open>reading\<close> is the value of
  \<^verbatim>\<open>light_read()\<close> and \<open>r\<close> the value of \<^verbatim>\<open>rand()\<close> in this round.\<close>

definition start_game_wait :: "uint8_t \<Rightarrow> uint32_t \<Rightarrow> int \<Rightarrow> machine \<Rightarrow> machine option" where
  "start_game_wait round reading r m =
     do {
       (changed, m1) \<leftarrow>
          adjust_theme reading (emit (SetChar (48 + unat round)) (set_led_bar_position round m));
       let m2 = oled_putStringHorizontallyCentered (Lit ''WAIT...'')
                  (emit (DrawCircle (fontColor m1)) (oled_clearScreen m1));
       m3 \<leftarrow> play_note (notes_tbl ! 2) 250 m2;
       let randomDelay = random_delay r;
       let m4 = delay32Ms randomDelay m3;
       Some (emit (FillCircle (fontColor m4)) m4)
     }"

text \<open>
  Lines 550-568 of a round, the Result step, on the locals \<open>totalTime\<close> and
  \<open>highScoreMs\<close> of \<^verbatim>\<open>start_game\<close>:
  \<^verbatim>\<open>totalTime += reactionTimeMs;
  char reactionTimeMsString[5];  sprintf(reactionTimeMsString, "%u", reactionTimeMs);
  oled_clearScreen(backgroundColor);  strcat(reactionTimeMsString, " ms");
  oled_clearScreen(backgroundColor);  oled_putStringHorizontallyCentered(..., reactionTimeMsString);
  if ((reactionTimeMs < highScoreMs) || (highScoreMs == (uint16_t)0)) {
     oled_putStringHorizontallyCentered(..., "NEW RECORD!");
     set_high_score(reactionTimeMs);  highScoreMs = reactionTimeMs;
     play_note(notes[0], 100);  play_note(notes[5], 200);  play_note(notes[10], 400); }\<close>
  The buffer has 5 bytes, so the two string calls come first and can fault.  The
  comparison is on \<^verbatim>\<open>uint32_t\<close> (\<open>highScoreMs\<close> is widened); the argument of
  \<^verbatim>\<open>set_high_score\<close> and the assignment to \<open>highScoreMs\<close> narrow to \<^verbatim>\<open>uint16_t\<close>.
  The result is \<open>None\<close> when the step does not return, \<open>Some (Inl f)\<close> when it faults and
  \<open>Some (Inr (totalTime, highScoreMs, machine))\<close> when it returns.
\<close>

definition start_game_result ::
  "uint32_t \<Rightarrow> uint32_t \<Rightarrow> uint16_t \<Rightarrow> machine
     \<Rightarrow> (fault + uint32_t \<times> uint16_t \<times> machine) option" where
  "start_game_result reactionTimeMs totalTime highScoreMs m =
     (let totalTime1 = totalTime + reactionTimeMs
      in case sprintf_u 5 reactionTimeMs of
           Inl f \<Rightarrow> Some (Inl f)
         | Inr digits \<Rightarrow>
            (case strcat 5 digits '' ms'' of
               Inl f \<Rightarrow> Some (Inl f)
             | Inr reactionTimeMsString \<Rightarrow>
                (let m1 = oled_putStringHorizontallyCentered (Lit reactionTimeMsString)
                            (oled_clearScreen (oled_clearScreen m))
                 in if reactionTimeMs < ucast highScoreMs \<or> highScoreMs = 0
                    then do {
                      let m2 = oled_putStringHorizontallyCentered (Lit ''NEW RECORD!'') m1;
                      let m3 = set_high_score (ucast reactionTimeMs) m2;
                      let highScoreMs1 = ucast reactionTimeMs;
                      m4 \<leftarrow> play_note (notes_tbl ! 0) 100 m3;
                      m5 \<leftarrow> play_note (notes_tbl ! 5) 200 m4;
                      m6 \<leftarrow> play_note (notes_tbl ! 10) 400 m5;
                      Some (Inr (totalTime1, highScoreMs1, m6))
                    }
                    else Some (Inr (totalTime1, highScoreMs, m1)))))"

text \<open>One pass of the body of \<^verbatim>\<open>while (round < 5)\<close>: wait, measure, result, then
  \<^verbatim>\<open>round++; delay32Ms(0, 600); wait_for_joystick_center_click();\<close> (the increment is
  made by \<open>start_game_loop\<close>).  \<open>e\<close> gives the light reading and the \<^verbatim>\<open>rand()\<close> value
  of the round.  A fault of the Result step ends the pass.\<close>

definition start_game_round ::
  "joystick_bits \<Rightarrow> uint32_t \<times> int \<Rightarrow> uint8_t \<Rightarrow> uint32_t \<Rightarrow> uint16_t \<Rightarrow> uint8_t list \<Rightarrow> machine
     \<Rightarrow> (fault + uint32_t \<times> uint16_t \<times> uint8_t list \<times> machine) option" where
  "start_game_round jb e round totalTime highScoreMs js m =
     do {
       m1 \<leftarrow> start_game_wait round (fst e) (snd e) m;
       (reactionTimeMs, js1, m2) \<leftarrow> measure_reaction_time jb js m1;
       res \<leftarrow> start_game_result reactionTimeMs totalTime highScoreMs m2;
       case res of
         Inl f \<Rightarrow> Some (Inl f)
       | Inr (totalTime1, highScoreMs1, m3) \<Rightarrow>
           do {
             (js2, m4) \<leftarrow> wait_for_joystick_center_click jb js1 (delay32Ms 600 m3);
             Some (Inr (totalTime1, highScoreMs1, js2, m4))
           }
     }"

function start_game_loop ::
  "joystick_bits \<Rightarrow> (nat \<Rightarrow> uint32_t \<times> int) \<Rightarrow> uint8_t \<Rightarrow> uint32_t \<Rightarrow> uint16_t
     \<Rightarrow> uint8_t list \<Rightarrow> machine
     \<Rightarrow> (fault + uint32_t \<times> uint16_t \<times> uint8_t list \<times> machine) option" where
  "start_game_loop jb env round totalTime highScoreMs js m =
     (if round < 5
      then case start_game_round jb (env (unat round)) round totalTime highScoreMs js m of
             None \<Rightarrow> None
           | Some (Inl f) \<Rightarrow> Some (Inl f)
           | Some (Inr (totalTime1, highScoreMs1, js1, m1)) \<Rightarrow>
               start_game_loop jb env (round + 1) totalTime1 highScoreMs1 js1 m1
      else Some (Inr (totalTime, highScoreMs, js, m)))"
  by pat_completeness auto
termination
proof (relation "measure (\<lambda>(jb, env, round, totalTime, highScoreMs, js, m). 5 - unat round)")
  show "wf (measure (\<lambda>(jb, env, round, totalTime, highScoreMs, js, m). 5 - unat (round :: uint8_t)))"
    by simp
next
  fix jb :: joystick_bits and env :: "nat \<Rightarrow> uint32_t \<times> int" and round :: uint8_t
    and totalTime t1 :: uint32_t and highScoreMs h1 :: uint16_t and js js1 :: "uint8_t list"
    and m m1 :: machine
  assume "round < 5"
  then have small: "unat round < 5"
    by (simp add: word_less_nat_alt)
  then have "unat (round + 1) = unat round + 1"
    by (simp add: unat_word_ariths)
  with small
  show "((jb, env, round + 1, t1, h1, js1, m1), jb, env, round, totalTime, highScoreMs, js, m)
       \<in> measure (\<lambda>(jb, env, round, totalTime, highScoreMs, js, m). 5 - unat round)"
    by simp
qed

text \<open>\<^verbatim>\<open>start_game\<close>: \<^verbatim>\<open>round = 0; totalTime = 0; highScoreMs = read_high_score();\<close>, the
  loop, then the summary screen (its two strings are written with \<^verbatim>\<open>snprintf\<close>, which
  stays inside the buffer).\<close>

definition start_game ::
  "joystick_bits \<Rightarrow> (nat \<Rightarrow> uint32_t \<times> int) \<Rightarrow> uint8_t list \<Rightarrow> machine
     \<Rightarrow> (fault + uint8_t list \<times> machine) option" where
  "start_game jb env js m =
     do {
       res \<leftarrow> start_game_loop jb env 0 0 (read_high_score m) js m;
       case res of
         Inl f \<Rightarrow> Some (Inl f)
       | Inr (totalTime, highScoreMs, js1, m1) \<Rightarrow>
           do {
             let m2 = oled_putStringHorizontallyCentered (Lit ''Game Complete!'')
                        (oled_clearScreen m1);
             let m3 = oled_putStringHorizontallyCentered
                        (Fmt ''Avg: %u ms'' (unat (totalTime div 5))) m2;
             let m4 = oled_putStringHorizontallyCentered
                        (Fmt ''Best: %u ms'' (unat (read_high_score m3))) m3;
             let m5 = delay32Ms 1000 (emit (SetChar 48) (clear_led_bar m4));
             (js2, m6) \<leftarrow> wait_for_joystick_center_click jb js1 m5;
             Some (Inr (js2, m6))
           }
     }"

subsection \<open>MenuController: \<^verbatim>\<open>handle_menu\<close>\<close>

text \<open>What one pass of the polling loop reads: the joystick, the accelerometer and the
  light sensor.\<close>

record poll =
  joy :: uint8_t
  acc :: "int8_t \<times> int8_t \<times> int8_t"
  light :: uint32_t

text \<open>A pass of \<^verbatim>\<open>while (1)\<close> either returns the selected index or ends with a new
  \<^verbatim>\<open>previous_joy\<close>.\<close>

datatype menu_step = Selected (chosen: int) (after: machine) | Polling (previous: uint8_t) (after: machine)

text \<open>The rest of a pass after the joystick has been handled (lines 621-633):
  \<^verbatim>\<open>previous_joy = joy;  if (is_board_tilted()) { set_high_score(9999); ...; delay32Ms(0, 500); }
  if (adjust_theme()) { draw_menu(); }  delay32Ms(0, 50);\<close>\<close>

definition handle_menu_background :: "poll \<Rightarrow> machine \<Rightarrow> menu_step option" where
  "handle_menu_background p m =
     (let (tilted, m1) = is_board_tilted (acc p) m;
          m2 = (if tilted \<noteq> 0
                then delay32Ms 500
                       (oled_putStringHorizontallyCentered (Lit ''Reset HS'') (set_high_score 9999 m1))
                else m1)
      in do {
           (changed, m3) \<leftarrow> adjust_theme (light p) m2;
           let m4 = (if changed \<noteq> 0 then draw_menu m3 else m3);
           Some (Polling (joy p) (delay32Ms 50 m4))
         })"

text \<open>One pass of the loop (lines 604-633).  \<^verbatim>\<open>selectedIndex\<close> is a C \<^verbatim>\<open>int\<close> and \<^verbatim>\<open>%\<close>
  truncates towards zero (\<open>smod\<close>).\<close>

definition handle_menu_poll ::
  "joystick_bits \<Rightarrow> uint8_t \<Rightarrow> poll \<Rightarrow> machine \<Rightarrow> menu_step option" where
  "handle_menu_poll jb previous_joy p m =
     (if joy p AND JOYSTICK_DOWN jb \<noteq> 0 \<and> \<not> (previous_joy AND JOYSTICK_DOWN jb \<noteq> 0)
      then handle_menu_background p
             (draw_menu (m\<lparr>selectedIndex := (selectedIndex m + 1) smod MENU_ITEM_COUNT\<rparr>))
      else if joy p AND JOYSTICK_UP jb \<noteq> 0 \<and> \<not> (previous_joy AND JOYSTICK_UP jb \<noteq> 0)
      then handle_menu_background p
             (draw_menu (m\<lparr>selectedIndex :=
                              (selectedIndex m - 1 + MENU_ITEM_COUNT) smod MENU_ITEM_COUNT\<rparr>))
      else if joy p AND JOYSTICK_CENTER jb \<noteq> 0 \<and> \<not> (previous_joy AND JOYSTICK_CENTER jb \<noteq> 0)
      then Some (Selected (selectedIndex m) m)
      else handle_menu_background p m)"

text \<open>The loop over the successive polls.  When the polls are used up and no pass has
  returned, the result is the loop's state at that point (\<open>Polling\<close>).\<close>

fun handle_menu_loop ::
  "joystick_bits \<Rightarrow> uint8_t \<Rightarrow> poll list \<Rightarrow> machine \<Rightarrow> menu_step option" where
  "handle_menu_loop jb previous_joy [] m = Some (Polling previous_joy m)"
| "handle_menu_loop jb previous_joy (p # ps) m =
     (case handle_menu_poll jb previous_joy p m of
        None \<Rightarrow> None
      | Some (Selected i m') \<Rightarrow> Some (Selected i m')
      | Some (Polling previous_joy' m') \<Rightarrow> handle_menu_loop jb previous_joy' ps m')"

text \<open>\<^verbatim>\<open>uint8_t previous_joy = 0xFF;  while (1) { ... }\<close>\<close>

definition handle_menu :: "joystick_bits \<Rightarrow> poll list \<Rightarrow> machine \<Rightarrow> menu_step option" where
  "handle_menu jb ps m = handle_menu_loop jb 0xFF ps m"

subsection \<open>Auxiliary definitions for the statements\<close>

text \<open>\<open>square_wave n note\<close> is \<open>n\<close> passes of the body of the loop of \<^verbatim>\<open>play_note\<close>;
  \<open>cycles_needed\<close> counts the passes that the loop makes from the counter value \<open>t\<close>
  when nothing wraps; \<open>wave n c q\<close> is the trace of \<open>n\<close> high/low pairs that start at
  time \<open>c\<close>, with \<open>q\<close> microseconds after each write.\<close>

fun square_wave :: "nat \<Rightarrow> uint32_t \<Rightarrow> machine \<Rightarrow> machine" where
  "square_wave 0 note m = m"
| "square_wave (Suc n) note m =
     square_wave n note (delay32Us (note div 4) (P1_2_LOW (delay32Us (note div 4) (P1_2_HIGH m))))"

definition cycles_needed :: "uint32_t \<Rightarrow> uint32_t \<Rightarrow> uint32_t \<Rightarrow> nat" where
  "cycles_needed note limit t = (unat limit - unat t + unat note - 1) div unat note"

fun wave :: "nat \<Rightarrow> nat \<Rightarrow> nat \<Rightarrow> (nat \<times> bool) list" where
  "wave 0 c q = []"
| "wave (Suc n) c q = (c, True) # (c + q, False) # wave n (c + q + q) q"

text \<open>The machine after reset, for the concrete examples: the globals of main.c have
  static storage and start at zero (\<^verbatim>\<open>OLED_COLOR_BLACK\<close> is the first enumerator), and
  the store is taken to hold zeros.\<close>

definition boot_machine :: machine where
  "boot_machine =
     \<lparr>clock_us = 0, speaker = [], eeprom = (\<lambda>a. 0),
      fontColor = OLED_COLOR_BLACK, backgroundColor = OLED_COLOR_BLACK,
      tilt = \<lparr>xOffset = 0, yOffset = 0, zOffset = 0, xCur = 0, yCur = 0, zCur = 0\<rparr>,
      selectedIndex = 0, outputs = []\<rparr>"

text \<open>Joystick masks for the concrete examples: one bit each.\<close>

definition example_bits :: joystick_bits where
  "example_bits = \<lparr>JOYSTICK_CENTER = 0x01, JOYSTICK_UP = 0x02, JOYSTICK_DOWN = 0x04\<rparr>"

text \<open>A poll of the menu loop with the joystick value \<open>j\<close>, the board level and at rest
  (accelerometer 0, 0, 0) and bright light (reading 200).\<close>

definition level_poll :: "uint8_t \<Rightarrow> poll" where
  "level_poll j = \<lparr>joy = j, acc = (0, 0, 0), light = 200\<rparr>"

text \<open>The spec's wording of the reaction timer (section 4.4), for comparison with
  \<open>measure_reaction_time\<close>: the wait ends on the first sample where the confirm bit is set
  and was clear in the sample before; \<open>was_pressed\<close> is the state of the button when the
  timer is armed.  The result is the number of samples read before that edge.\<close>

fun spec_arm_and_wait_for_input :: "uint8_t \<Rightarrow> bool \<Rightarrow> uint8_t list \<Rightarrow> nat option" where
  "spec_arm_and_wait_for_input c was_pressed [] = None"
| "spec_arm_and_wait_for_input c was_pressed (j # js) =
     (if j AND c \<noteq> 0 \<and> \<not> was_pressed then Some 0
      else map_option Suc (spec_arm_and_wait_for_input c (j AND c \<noteq> 0) js))"

text \<open>The values that \<^verbatim>\<open>rand()\<close> can return are \<open>0, ..., RAND_MAX\<close>; \<^verbatim>\<open>RAND_MAX\<close> is a
  constant of stdlib.h, not part of the sources and at least 32767, and is a parameter
  here.  \<open>rand_draws RAND_MAX d\<close> is the set of these values for which the hold before the
  stimulus is \<open>d\<close> milliseconds.\<close>

definition rand_draws :: "int \<Rightarrow> int \<Rightarrow> int set" where
  "rand_draws RAND_MAX d = {r. 0 \<le> r \<and> r \<le> RAND_MAX \<and> uint (random_delay r) = d}"

section \<open>Properties\<close>

subsection \<open>ScoreStore\<close>

lemma eeprom_read_8_2: "eeprom_read 8 2 m = [eeprom m 8, eeprom m 9]"
proof -
  have "[8 ..< 8 + 2] = [8, 9::nat]"
    by (simp add: upt_rec)
  then show ?thesis
    by (simp add: eeprom_read_def)
qed

lemma mask8_numeral: "(255 :: 'a::len word) = mask 8"
  by (simp add: mask_eq_exp_minus_1)

lemma low_byte_mask: "(v AND 0x00FF) = take_bit 8 (v :: uint16_t)"
  unfolding mask8_numeral by (simp add: take_bit_eq_mask)

lemma high_byte_mask: "drop_bit 8 (v AND 0xFF00) = drop_bit 8 (v :: uint16_t)"
proof -
  have "drop_bit 8 (v AND 0xFF00) = drop_bit 8 v AND 255"
    by simp
  also have "\<dots> = take_bit 8 (drop_bit 8 v)"
    unfolding mask8_numeral by (simp add: take_bit_eq_mask)
  also have "\<dots> = drop_bit 8 v"
    by (rule bit_word_eqI) (auto simp add: bit_simps dest: bit_imp_le_length)
  finally show ?thesis .
qed

lemma low_byte: "(ucast (v AND 0x00FF) :: uint8_t) = ucast (v :: uint16_t)"
  unfolding low_byte_mask by (rule bit_word_eqI) (auto simp add: bit_simps)

lemma be16_roundtrip:
  "push_bit 8 (ucast (ucast (drop_bit 8 v) :: uint8_t) :: uint16_t)
     OR ucast (ucast v :: uint8_t) = (v :: uint16_t)"
  by (rule bit_word_eqI) (auto simp add: bit_simps dest: bit_imp_le_length)

lemma eeprom_set_high_score:
  "eeprom (set_high_score v m) =
     (\<lambda>a. if a = 8 then ucast (drop_bit 8 v) else if a = 9 then ucast v else eeprom m a)"
  unfolding set_high_score_def high_byte_mask low_byte
  by (auto simp add: eeprom_write_def Let_def fun_eq_iff nth_Cons')

lemma set_high_score_fields [simp]:
  "clock_us (set_high_score v m) = clock_us m"
  "speaker (set_high_score v m) = speaker m"
  "fontColor (set_high_score v m) = fontColor m"
  "backgroundColor (set_high_score v m) = backgroundColor m"
  "tilt (set_high_score v m) = tilt m"
  "selectedIndex (set_high_score v m) = selectedIndex m"
  "outputs (set_high_score v m) = outputs m"
  by (simp_all add: set_high_score_def eeprom_write_def Let_def)

lemma read_high_score_bytes:
  "read_high_score m = push_bit 8 (ucast (eeprom m 8)) OR ucast (eeprom m 9)"
  by (simp add: read_high_score_def eeprom_read_8_2)

lemma read_after_set [simp]: "read_high_score (set_high_score v m) = v"
  by (simp add: read_high_score_bytes eeprom_set_high_score be16_roundtrip)

text \<open>
  Claim C7.  For every 16-bit value \<open>v\<close>, \<^verbatim>\<open>set_high_score(v)\<close> followed by
  \<^verbatim>\<open>read_high_score()\<close> returns \<open>v\<close>: the two bytes written are the high byte and the
  low byte of \<open>v\<close>, in this order, at the fixed addresses 8 and 9 of the store, no other
  address changes, and the value is decoded big-endian from the same two addresses.
\<close>

theorem C7_high_score_roundtrip:
  "read_high_score (set_high_score v m) = v
   \<and> eeprom (set_high_score v m) =
       (\<lambda>a. if a = 8 then ucast (drop_bit 8 v) else if a = 9 then ucast v else eeprom m a)
   \<and> read_high_score m = push_bit 8 (ucast (eeprom m 8)) OR ucast (eeprom m 9)"
  using read_after_set eeprom_set_high_score read_high_score_bytes by blast

subsection \<open>TiltMonitor\<close>

lemma is_board_tilted_result:
  "fst (is_board_tilted (ax, ay, az) m) =
     (if sint (ax + xOffset (tilt m)) > 30 \<or> sint (ax + xOffset (tilt m)) < - 30
         \<or> sint (ay + yOffset (tilt m)) > 30 \<or> sint (ay + yOffset (tilt m)) < - 30
      then 1 else 0)"
  by (simp add: is_board_tilted_def acc_read_def Let_def)

lemma is_board_tilted_fields [simp]:
  "clock_us (snd (is_board_tilted sample m)) = clock_us m"
  "speaker (snd (is_board_tilted sample m)) = speaker m"
  "eeprom (snd (is_board_tilted sample m)) = eeprom m"
  "fontColor (snd (is_board_tilted sample m)) = fontColor m"
  "backgroundColor (snd (is_board_tilted sample m)) = backgroundColor m"
  "selectedIndex (snd (is_board_tilted sample m)) = selectedIndex m"
  "outputs (snd (is_board_tilted sample m)) = outputs m"
  "xOffset (tilt (snd (is_board_tilted sample m))) = xOffset (tilt m)"
  "yOffset (tilt (snd (is_board_tilted sample m))) = yOffset (tilt m)"
  "zOffset (tilt (snd (is_board_tilted sample m))) = zOffset (tilt m)"
  by (cases sample; simp add: is_board_tilted_def acc_read_def Let_def)+

lemma tilt_init_tilt_calibration:
  "tilt (init_tilt_calibration (ax, ay, az) m) =
     \<lparr>xOffset = - ax, yOffset = - ay, zOffset = 64 - az, xCur = ax, yCur = ay, zCur = az\<rparr>"
  by (simp add: init_tilt_calibration_def acc_read_def Let_def)

text \<open>
  Claim C8.  After \<^verbatim>\<open>init_tilt_calibration\<close> at the reference reading \<open>(ax, ay, az)\<close>,
  \<^verbatim>\<open>is_board_tilted\<close> returns 0 at that reading, also after any other call of
  \<^verbatim>\<open>is_board_tilted\<close> in between (it leaves the offsets alone).  In every state it
  returns 1 exactly when the offset-adjusted X or Y reading, as the \<^verbatim>\<open>int8_t\<close> that the
  code stores, is above 30 or below -30, and 0 otherwise.  The Z offset is 64 minus the
  reference reading, and neither the Z reading nor the Z offset changes the result.
\<close>

theorem C8_tilt_after_calibration:
  "fst (is_board_tilted (ax, ay, az) (init_tilt_calibration (ax, ay, az) m)) = 0
   \<and> fst (is_board_tilted (ax, ay, az)
            (snd (is_board_tilted (cx, cy, cz) (init_tilt_calibration (ax, ay, az) m)))) = 0
   \<and> (fst (is_board_tilted (bx, by, bz) m) = 1) =
       (sint (bx + xOffset (tilt m)) > 30 \<or> sint (bx + xOffset (tilt m)) < - 30
        \<or> sint (by + yOffset (tilt m)) > 30 \<or> sint (by + yOffset (tilt m)) < - 30)
   \<and> (fst (is_board_tilted (bx, by, bz) m) = 0) =
       (\<not> (sint (bx + xOffset (tilt m)) > 30 \<or> sint (bx + xOffset (tilt m)) < - 30
        \<or> sint (by + yOffset (tilt m)) > 30 \<or> sint (by + yOffset (tilt m)) < - 30))
   \<and> (fst (is_board_tilted (bx, by, bz) (init_tilt_calibration (ax, ay, az) m)) = 1) =
       (sint (bx - ax) > 30 \<or> sint (bx - ax) < - 30
        \<or> sint (by - ay) > 30 \<or> sint (by - ay) < - 30)
   \<and> zOffset (tilt (init_tilt_calibration (ax, ay, az) m)) = 64 - az
   \<and> fst (is_board_tilted (bx, by, bz') (m\<lparr>tilt := (tilt m)\<lparr>zOffset := zo\<rparr>\<rparr>))
       = fst (is_board_tilted (bx, by, bz) m)"
  by (simp add: is_board_tilted_result tilt_init_tilt_calibration)

subsection \<open>AudioFeedback\<close>

lemma ceil_div_step:
  fixes p t L :: nat
  assumes "0 < p" and "t < L"
  shows "(L - t + p - 1) div p = Suc ((L - (t + p) + p - 1) div p)"
proof (cases "t + p \<le> L")
  case True
  then have "L - t + p - 1 = (L - (t + p) + p - 1) + p"
    using assms by arith
  then have "(L - t + p - 1) div p = ((L - (t + p) + p - 1) + p) div p"
    by (rule arg_cong)
  also have "\<dots> = Suc ((L - (t + p) + p - 1) div p)"
    using assms(1) by (simp only: div_add_self2)
  finally show ?thesis .
next
  case False
  then have z: "L - (t + p) + p - 1 = p - 1"
    by arith
  have "(L - t + p - 1) div p = 1"
  proof (rule div_nat_eqI)
    show "p * 1 \<le> L - t + p - 1" using assms by arith
    show "L - t + p - 1 < p * Suc 1" using False assms by simp
  qed
  moreover have "(L - (t + p) + p - 1) div p = 0"
    unfolding z using assms(1) by simp
  ultimately show ?thesis
    by (simp only:)
qed

text \<open>When \<open>durationMs * 1000 + note\<close> fits in 32 bits the loop ends, after
  \<open>cycles_needed\<close> passes.\<close>

lemma play_note_loop_closed:
  assumes "0 < note" and "unat (durationMs * 1000) + unat note \<le> 2 ^ 32"
    and "cycles_needed note (durationMs * 1000) t = n"
  shows "play_note_loop note durationMs t m = Some (square_wave n note m)"
  using assms(3)
proof (induction n arbitrary: t m)
  case 0
  have p: "0 < unat note" using assms(1) by (simp add: word_less_nat_alt)
  from 0 have "unat (durationMs * 1000) - unat t + unat note - 1 < unat note"
    using p by (simp add: cycles_needed_def div_eq_0_iff)
  then have "unat (durationMs * 1000) \<le> unat t" using p by arith
  then have "\<not> t < durationMs * 1000" by (simp add: word_less_nat_alt)
  then show ?case
    by (subst play_note_loop.simps) simp
next
  case (Suc n)
  have p: "0 < unat note" using assms(1) by (simp add: word_less_nat_alt)
  let ?L = "unat (durationMs * 1000)"
  have lt: "unat t < ?L"
  proof (rule ccontr)
    assume "\<not> unat t < ?L"
    then have "?L - unat t + unat note - 1 < unat note" using p by arith
    then have "cycles_needed note (durationMs * 1000) t = 0"
      by (simp add: cycles_needed_def)
    with Suc.prems show False by simp
  qed
  then have tl: "t < durationMs * 1000" by (simp add: word_less_nat_alt)
  have "unat t + unat note < 2 ^ 32" using lt assms(2) by arith
  then have un: "unat (t + note) = unat t + unat note"
    by (simp add: unat_word_ariths)
  have "cycles_needed note (durationMs * 1000) (t + note) = n"
    using Suc.prems ceil_div_step [OF p lt]
    by (simp only: cycles_needed_def un)
  from Suc.IH [OF this] tl show ?case
    by (subst play_note_loop.simps) simp
qed

lemma clock_square_wave [simp]:
  "clock_us (square_wave n note m) = clock_us m + n * (2 * unat (note div 4))"
  by (induction n arbitrary: m) (simp_all add: delay32Us_def P1_2_HIGH_def P1_2_LOW_def)

lemma speaker_square_wave [simp]:
  "speaker (square_wave n note m) = speaker m @ wave n (clock_us m) (unat (note div 4))"
  by (induction n arbitrary: m) (simp_all add: delay32Us_def P1_2_HIGH_def P1_2_LOW_def)

lemma square_wave_fields [simp]:
  "eeprom (square_wave n note m) = eeprom m"
  "fontColor (square_wave n note m) = fontColor m"
  "backgroundColor (square_wave n note m) = backgroundColor m"
  "tilt (square_wave n note m) = tilt m"
  "selectedIndex (square_wave n note m) = selectedIndex m"
  "outputs (square_wave n note m) = outputs m"
  by (induction n arbitrary: m; simp add: delay32Us_def P1_2_HIGH_def P1_2_LOW_def)+

lemma read_high_score_square_wave [simp]:
  "read_high_score (square_wave n note m) = read_high_score m"
  by (simp add: read_high_score_bytes)

lemma play_note_tone:
  assumes "0 < note" and "unat durationMs * 1000 + unat note \<le> 2 ^ 32"
  shows "play_note note durationMs m =
     Some (square_wave ((unat durationMs * 1000 + unat note - 1) div unat note) note m)"
proof -
  have "unat durationMs * 1000 < 2 ^ 32"
    using assms by (simp add: word_less_nat_alt)
  then have u: "unat (durationMs * 1000) = unat durationMs * 1000"
    by (simp add: unat_word_ariths)
  have "cycles_needed note (durationMs * 1000) 0
          = (unat durationMs * 1000 + unat note - 1) div unat note"
    by (simp add: cycles_needed_def u)
  from play_note_loop_closed [OF assms(1) _ this] assms show ?thesis
    by (simp add: play_note_def u)
qed

lemma play_note_rest: "play_note 0 durationMs m = Some (delay32Ms durationMs m)"
  by (simp add: play_note_def)

text \<open>The tones that the program plays.\<close>

lemma play_note_A_200: "play_note (notes_tbl ! 0) 200 m = Some (square_wave 89 2272 m)"
  by (simp add: play_note_tone notes_tbl_def)

lemma play_note_A_100: "play_note (notes_tbl ! 0) 100 m = Some (square_wave 45 2272 m)"
  by (simp add: play_note_tone notes_tbl_def)

lemma play_note_E_200: "play_note (notes_tbl ! 5) 200 m = Some (square_wave 67 3030 m)"
  by (simp add: play_note_tone notes_tbl_def)

lemma play_note_a_400: "play_note (notes_tbl ! 10) 400 m = Some (square_wave 353 1136 m)"
  by (simp add: play_note_tone notes_tbl_def)

lemma play_note_C_250: "play_note (notes_tbl ! 2) 250 m = Some (square_wave 66 3816 m)"
  by (simp add: play_note_tone notes_tbl_def)

text \<open>
  Claim C3.  The rest path is as claimed: \<^verbatim>\<open>play_note(0, d)\<close> returns with the logical time
  advanced by exactly \<open>d\<close> milliseconds and with no write to the speaker pin.  The tone
  path is not: at the example \<^verbatim>\<open>play_note(2272, 500)\<close> the function returns after 221
  high/low pairs, each write followed by \<open>2272 div 4 = 568\<close> microseconds, and the logical
  time has advanced by 251056 microseconds, where the claim says 500 milliseconds.
\<close>

theorem C3_play_note_2272_500:
  "play_note 0 d m = Some (m\<lparr>clock_us := clock_us m + 1000 * unat d\<rparr>)
   \<and> speaker (m\<lparr>clock_us := clock_us m + 1000 * unat d\<rparr>) = speaker m
   \<and> play_note 2272 500 boot_machine = Some (square_wave 221 2272 boot_machine)
   \<and> clock_us boot_machine = 0
   \<and> clock_us (square_wave 221 2272 boot_machine) = 251056
   \<and> length (speaker (square_wave 221 2272 boot_machine)) = 442
   \<and> take 4 (speaker (square_wave 221 2272 boot_machine))
       = [(0, True), (568, False), (1136, True), (1704, False)]"
proof -
  have len: "length (wave n c q) = 2 * n" for n c q
    by (induction n c q rule: wave.induct) simp_all
  have first: "take 4 (wave (Suc (Suc n)) c q)
                 = [(c, True), (c + q, False), (c + q + q, True), (c + q + q + q, False)]"
    for n c q
    by simp
  have unfold: "wave 221 0 568 = wave (Suc (Suc 219)) 0 568"
    by (rule arg_cong [where f = "\<lambda>n. wave n 0 568"]) simp
  have four: "take 4 (wave 221 0 568)
                 = [(0, True), (568, False), (1136, True), (1704, False)]"
    by (subst unfold, subst first) simp
  show ?thesis
    by (simp add: play_note_rest delay32Ms_def play_note_tone len four boot_machine_def)
qed

subsection \<open>Frame lemmas of the peripherals\<close>

lemma emit_fields [simp]:
  "clock_us (emit ev m) = clock_us m"
  "speaker (emit ev m) = speaker m"
  "eeprom (emit ev m) = eeprom m"
  "fontColor (emit ev m) = fontColor m"
  "backgroundColor (emit ev m) = backgroundColor m"
  "tilt (emit ev m) = tilt m"
  "selectedIndex (emit ev m) = selectedIndex m"
  "outputs (emit ev m) = outputs m @ [ev]"
  by (simp_all add: emit_def)

lemma delay32Ms_fields [simp]:
  "clock_us (delay32Ms ms m) = clock_us m + 1000 * unat ms"
  "speaker (delay32Ms ms m) = speaker m"
  "eeprom (delay32Ms ms m) = eeprom m"
  "fontColor (delay32Ms ms m) = fontColor m"
  "backgroundColor (delay32Ms ms m) = backgroundColor m"
  "tilt (delay32Ms ms m) = tilt m"
  "selectedIndex (delay32Ms ms m) = selectedIndex m"
  "outputs (delay32Ms ms m) = outputs m"
  by (simp_all add: delay32Ms_def)

lemma oled_putStringHorizontallyCentered_fields [simp]:
  "clock_us (oled_putStringHorizontallyCentered txt m) = clock_us m"
  "speaker (oled_putStringHorizontallyCentered txt m) = speaker m"
  "eeprom (oled_putStringHorizontallyCentered txt m) = eeprom m"
  "fontColor (oled_putStringHorizontallyCentered txt m) = fontColor m"
  "backgroundColor (oled_putStringHorizontallyCentered txt m) = backgroundColor m"
  "tilt (oled_putStringHorizontallyCentered txt m) = tilt m"
  "selectedIndex (oled_putStringHorizontallyCentered txt m) = selectedIndex m"
  "outputs (oled_putStringHorizontallyCentered txt m)
     = outputs m @ [Centered txt (fontColor m) (backgroundColor m)]"
  by (simp_all add: oled_putStringHorizontallyCentered_def)

lemma oled_clearScreen_fields [simp]:
  "clock_us (oled_clearScreen m) = clock_us m"
  "speaker (oled_clearScreen m) = speaker m"
  "eeprom (oled_clearScreen m) = eeprom m"
  "fontColor (oled_clearScreen m) = fontColor m"
  "backgroundColor (oled_clearScreen m) = backgroundColor m"
  "tilt (oled_clearScreen m) = tilt m"
  "selectedIndex (oled_clearScreen m) = selectedIndex m"
  "outputs (oled_clearScreen m) = outputs m @ [ClearScreen (backgroundColor m)]"
  by (simp_all add: oled_clearScreen_def)

lemma read_high_score_eeprom:
  "eeprom m' = eeprom m \<Longrightarrow> read_high_score m' = read_high_score m"
  by (simp add: read_high_score_bytes)

subsection \<open>ThemeAdapter\<close>

lemma adjust_theme_night:
  "reading < 125 \<Longrightarrow> adjust_theme reading m =
     (if fontColor m = OLED_COLOR_WHITE
      then Some (0, m\<lparr>fontColor := OLED_COLOR_WHITE, backgroundColor := OLED_COLOR_BLACK\<rparr>)
      else Some (1, square_wave 89 2272
                      (m\<lparr>fontColor := OLED_COLOR_WHITE, backgroundColor := OLED_COLOR_BLACK\<rparr>)))"
  by (simp add: adjust_theme_def play_note_A_200)

lemma adjust_theme_day:
  "\<not> reading < 125 \<Longrightarrow> adjust_theme reading m =
     (if fontColor m = OLED_COLOR_BLACK
      then Some (0, m\<lparr>fontColor := OLED_COLOR_BLACK, backgroundColor := OLED_COLOR_WHITE\<rparr>)
      else Some (1, square_wave 89 2272
                      (m\<lparr>fontColor := OLED_COLOR_BLACK, backgroundColor := OLED_COLOR_WHITE\<rparr>)))"
  by (simp add: adjust_theme_def play_note_A_200)

lemma adjust_theme_returns:
  "\<exists>ret m'. adjust_theme reading m = Some (ret, m')
     \<and> (ret = 0 \<or> ret = 1)
     \<and> (ret = 1) = (fontColor m' \<noteq> fontColor m)
     \<and> fontColor m' = (if reading < 125 then OLED_COLOR_WHITE else OLED_COLOR_BLACK)
     \<and> backgroundColor m' = (if reading < 125 then OLED_COLOR_BLACK else OLED_COLOR_WHITE)
     \<and> eeprom m' = eeprom m \<and> tilt m' = tilt m \<and> selectedIndex m' = selectedIndex m
     \<and> outputs m' = outputs m"
proof (cases "reading < 125")
  case True
  then show ?thesis
    by (cases "fontColor m") (simp_all add: adjust_theme_night)
next
  case False
  then show ?thesis
    by (cases "fontColor m") (simp_all add: adjust_theme_day)
qed

text \<open>
  Claim C6, as amended.  Every call of \<^verbatim>\<open>adjust_theme\<close> returns, selects the night
  palette (white text on black) exactly when the reading is below 125 and the day palette
  otherwise, and returns 1 if and only if the text colour after the call differs from the
  text colour before it (0 otherwise).  When the colours before the call are one of the
  two palettes (text and background differ), this is exactly when the palette changed.
  A further call with a reading on the same side of the threshold returns 0.
\<close>

theorem C6_adjust_theme:
  "\<exists>ret m'. adjust_theme reading m = Some (ret, m')
     \<and> (ret = 0 \<or> ret = 1)
     \<and> fontColor m' = (if reading < 125 then OLED_COLOR_WHITE else OLED_COLOR_BLACK)
     \<and> backgroundColor m' = (if reading < 125 then OLED_COLOR_BLACK else OLED_COLOR_WHITE)
     \<and> (ret = 1) = (fontColor m' \<noteq> fontColor m)
     \<and> (fontColor m \<noteq> backgroundColor m \<longrightarrow>
          (ret = 1) = ((fontColor m', backgroundColor m') \<noteq> (fontColor m, backgroundColor m)))
     \<and> ((reading2 < 125) = (reading < 125) \<longrightarrow>
          (\<exists>m''. adjust_theme reading2 m' = Some (0, m'')))"
proof -
  obtain ret m' where r: "adjust_theme reading m = Some (ret, m')"
    and v: "ret = 0 \<or> ret = 1"
    and c: "(ret = 1) = (fontColor m' \<noteq> fontColor m)"
    and f: "fontColor m' = (if reading < 125 then OLED_COLOR_WHITE else OLED_COLOR_BLACK)"
    and b: "backgroundColor m' = (if reading < 125 then OLED_COLOR_BLACK else OLED_COLOR_WHITE)"
    using adjust_theme_returns [of reading m] by blast
  have pal: "(ret = 1) = ((fontColor m', backgroundColor m') \<noteq> (fontColor m, backgroundColor m))"
    if "fontColor m \<noteq> backgroundColor m"
    using that c f b by (cases "fontColor m"; cases "backgroundColor m"; simp split: if_splits)
  have again: "\<exists>m''. adjust_theme reading2 m' = Some (0, m'')"
    if "(reading2 < 125) = (reading < 125)"
  proof (cases "reading2 < 125")
    case True
    with that f show ?thesis by (simp add: adjust_theme_night)
  next
    case False
    with that f show ?thesis by (simp add: adjust_theme_day)
  qed
  from r v c f b pal again show ?thesis
    by blast
qed

theorem C6_adjust_theme_witness:
  "fontColor (boot_machine\<lparr>fontColor := OLED_COLOR_WHITE\<rparr>)
     \<noteq> backgroundColor (boot_machine\<lparr>fontColor := OLED_COLOR_WHITE\<rparr>)
   \<and> ((300 :: uint32_t) < 125) = ((200 :: uint32_t) < 125)
   \<and> (\<exists>m'. adjust_theme 200 (boot_machine\<lparr>fontColor := OLED_COLOR_WHITE\<rparr>) = Some (1, m')
         \<and> fontColor m' = OLED_COLOR_BLACK \<and> backgroundColor m' = OLED_COLOR_WHITE
         \<and> (\<exists>m''. adjust_theme 300 m' = Some (0, m'')))"
proof -
  let ?m = "boot_machine\<lparr>fontColor := OLED_COLOR_WHITE\<rparr>"
  have h: "fontColor ?m \<noteq> backgroundColor ?m"
    by (simp add: boot_machine_def)
  have w: "fontColor ?m = OLED_COLOR_WHITE"
    by simp
  have s: "((300 :: uint32_t) < 125) = ((200 :: uint32_t) < 125)"
    by simp
  from C6_adjust_theme [of 200 ?m 300] obtain ret m' where
    r: "adjust_theme 200 ?m = Some (ret, m')"
    and f: "fontColor m' = (if (200 :: uint32_t) < 125 then OLED_COLOR_WHITE else OLED_COLOR_BLACK)"
    and b: "backgroundColor m' = (if (200 :: uint32_t) < 125 then OLED_COLOR_BLACK else OLED_COLOR_WHITE)"
    and c: "(ret = 1) = (fontColor m' \<noteq> fontColor ?m)"
    and a: "((300 :: uint32_t) < 125) = ((200 :: uint32_t) < 125) \<longrightarrow>
              (\<exists>m''. adjust_theme 300 m' = Some (0, m''))"
    by blast
  from f have f': "fontColor m' = OLED_COLOR_BLACK" by simp
  from b have b': "backgroundColor m' = OLED_COLOR_WHITE" by simp
  from c f' w have "ret = 1" by simp
  with r f' b' a s h show ?thesis
    by blast
qed

text \<open>The claim as stated fails when both colour variables are equal before the call, as
  they are at reset: from black on black in bright light the palette changes to black
  on white and the call returns 0; from white on white in the dark it changes to white
  on black and the call returns 0.\<close>

theorem C6_palette_change_counterexample:
  "adjust_theme 200 boot_machine
     = Some (0, boot_machine\<lparr>fontColor := OLED_COLOR_BLACK, backgroundColor := OLED_COLOR_WHITE\<rparr>)
   \<and> backgroundColor boot_machine = OLED_COLOR_BLACK
   \<and> adjust_theme 100
        (boot_machine\<lparr>fontColor := OLED_COLOR_WHITE, backgroundColor := OLED_COLOR_WHITE\<rparr>)
     = Some (0, boot_machine\<lparr>fontColor := OLED_COLOR_WHITE, backgroundColor := OLED_COLOR_BLACK\<rparr>)"
  by (simp add: adjust_theme_day adjust_theme_night boot_machine_def)

subsection \<open>GameSession\<close>

lemma decimal_digit: "n < 10 \<Longrightarrow> decimal n = [char_of (48 + n)]"
  by (subst decimal.simps) simp

lemma decimal_more: "10 \<le> n \<Longrightarrow> decimal n = decimal (n div 10) @ [char_of (48 + n mod 10)]"
  by (subst decimal.simps) simp

lemma decimal_nonempty: "decimal n \<noteq> []"
  by (cases "n < 10") (simp_all add: decimal_digit decimal_more)

lemma length_decimal_digit: "n < 10 \<Longrightarrow> length (decimal n) = 1"
  by (simp add: decimal_digit)

lemma length_decimal_step: "10 \<le> n \<Longrightarrow> length (decimal n) = Suc (length (decimal (n div 10)))"
  by (simp add: decimal_more)

lemma length_decimal_pos: "1 \<le> length (decimal n)"
  using decimal_nonempty [of n] by (cases "decimal n") simp_all

lemma length_decimal_more:
  assumes "10 \<le> n"
  shows "2 \<le> length (decimal n)"
  using assms length_decimal_pos [of "n div 10"] by (simp add: length_decimal_step)

lemma length_decimal_10000:
  assumes "10000 \<le> n"
  shows "5 \<le> length (decimal n)"
proof -
  have "length (decimal n) = Suc (length (decimal (n div 10)))"
    using assms by (intro length_decimal_step) simp
  also have "length (decimal (n div 10)) = Suc (length (decimal (n div 10 div 10)))"
    using assms by (intro length_decimal_step) simp
  also have "length (decimal (n div 10 div 10)) = Suc (length (decimal (n div 10 div 10 div 10)))"
    using assms by (intro length_decimal_step) simp
  also have "length (decimal (n div 10 div 10 div 10))
               = Suc (length (decimal (n div 10 div 10 div 10 div 10)))"
    using assms by (intro length_decimal_step) simp
  finally show ?thesis
    using length_decimal_pos [of "n div 10 div 10 div 10 div 10"] by simp
qed

text \<open>The buffer of the Result step holds the digits, the three characters of \<open>" ms"\<close>
  and the terminating zero byte only for a single digit: for every time of 10 ms or more
  one of the two string calls writes past its end.\<close>

lemma start_game_result_overflow:
  assumes "10 \<le> unat reactionTimeMs"
  shows "start_game_result reactionTimeMs totalTime highScoreMs m = Some (Inl Buffer_Overflow)"
proof -
  have "2 \<le> length (decimal (unat reactionTimeMs))"
    using assms by (rule length_decimal_more)
  then show ?thesis
    by (simp add: start_game_result_def sprintf_u_def strcat_def)
qed

lemma start_game_result_record:
  assumes "unat reactionTimeMs < 10"
    and "reactionTimeMs < ucast highScoreMs \<or> highScoreMs = 0"
  shows "start_game_result reactionTimeMs totalTime highScoreMs m =
     Some (Inr (totalTime + reactionTimeMs, ucast reactionTimeMs,
           square_wave 353 1136 (square_wave 67 3030 (square_wave 45 2272
             (set_high_score (ucast reactionTimeMs)
                (oled_putStringHorizontallyCentered (Lit ''NEW RECORD!'')
                   (oled_putStringHorizontallyCentered
                      (Lit (decimal (unat reactionTimeMs) @ '' ms''))
                      (oled_clearScreen (oled_clearScreen m)))))))))"
  using assms
  by (simp add: start_game_result_def sprintf_u_def strcat_def length_decimal_digit Let_def
      play_note_A_100 play_note_E_200 play_note_a_400)

lemma start_game_result_no_record:
  assumes "unat reactionTimeMs < 10"
    and "\<not> (reactionTimeMs < ucast highScoreMs \<or> highScoreMs = 0)"
  shows "start_game_result reactionTimeMs totalTime highScoreMs m =
     Some (Inr (totalTime + reactionTimeMs, highScoreMs,
           oled_putStringHorizontallyCentered (Lit (decimal (unat reactionTimeMs) @ '' ms''))
             (oled_clearScreen (oled_clearScreen m))))"
  using assms
  by (simp add: start_game_result_def sprintf_u_def strcat_def length_decimal_digit Let_def)

lemma unat_ucast_32_16: "unat (ucast (w :: uint32_t) :: uint16_t) = unat w mod 65536"
  by (simp add: unsigned_ucast_eq take_bit_eq_mod)

text \<open>
  Claim C1.  The Result step follows the record rule of the claim only while the
  displayed string fits its buffer.  For every measured time \<open>T\<close> of 10 ms or more, the
  spec's own examples (\<open>H = 300, T = 250\<close>) included, the step writes past the end of
  \<^verbatim>\<open>reactionTimeMsString[5]\<close> before it compares and stores, so that no record is
  declared and nothing is persisted by defined behaviour.  For \<open>T < 10\<close> the step returns,
  declares a new record (prints \<open>NEW RECORD!\<close>) if and only if \<open>T < H\<close> or \<open>H = 0\<close>,
  persists \<open>T\<close> and keeps it as the local high score when it does, and leaves the store
  unchanged when it does not.
\<close>

theorem C1_result_step:
  "(10 \<le> unat T \<longrightarrow>
      start_game_result T totalTime highScoreMs m = Some (Inl Buffer_Overflow))
   \<and> (unat T < 10 \<longrightarrow>
        (\<exists>highScoreMs' m'.
           start_game_result T totalTime highScoreMs m
             = Some (Inr (totalTime + T, highScoreMs', m'))
           \<and> (Centered (Lit ''NEW RECORD!'') (fontColor m) (backgroundColor m)
                  \<in> set (drop (length (outputs m)) (outputs m')))
                = (T < ucast highScoreMs \<or> highScoreMs = 0)
           \<and> (T < ucast highScoreMs \<or> highScoreMs = 0 \<longrightarrow>
                 unat (read_high_score m') = unat T \<and> unat highScoreMs' = unat T)
           \<and> (\<not> (T < ucast highScoreMs \<or> highScoreMs = 0) \<longrightarrow>
                 eeprom m' = eeprom m \<and> highScoreMs' = highScoreMs)))"
proof (intro conjI impI)
  assume "10 \<le> unat T"
  then show "start_game_result T totalTime highScoreMs m = Some (Inl Buffer_Overflow)"
    by (rule start_game_result_overflow)
next
  assume small: "unat T < 10"
  have m16: "unat (ucast T :: uint16_t) = unat T"
    using small by (simp add: unat_ucast_32_16)
  show "\<exists>highScoreMs' m'.
           start_game_result T totalTime highScoreMs m
             = Some (Inr (totalTime + T, highScoreMs', m'))
           \<and> (Centered (Lit ''NEW RECORD!'') (fontColor m) (backgroundColor m)
                  \<in> set (drop (length (outputs m)) (outputs m')))
                = (T < ucast highScoreMs \<or> highScoreMs = 0)
           \<and> (T < ucast highScoreMs \<or> highScoreMs = 0 \<longrightarrow>
                 unat (read_high_score m') = unat T \<and> unat highScoreMs' = unat T)
           \<and> (\<not> (T < ucast highScoreMs \<or> highScoreMs = 0) \<longrightarrow>
                 eeprom m' = eeprom m \<and> highScoreMs' = highScoreMs)"
  proof (cases "T < ucast highScoreMs \<or> highScoreMs = 0")
    case True
    let ?m' = "square_wave 353 1136 (square_wave 67 3030 (square_wave 45 2272
             (set_high_score (ucast T)
                (oled_putStringHorizontallyCentered (Lit ''NEW RECORD!'')
                   (oled_putStringHorizontallyCentered (Lit (decimal (unat T) @ '' ms''))
                      (oled_clearScreen (oled_clearScreen m)))))))"
    have run: "start_game_result T totalTime highScoreMs m
                 = Some (Inr (totalTime + T, ucast T, ?m'))"
      using small True by (rule start_game_result_record)
    have stored: "read_high_score ?m' = ucast T"
      by simp
    have banner: "Centered (Lit ''NEW RECORD!'') (fontColor m) (backgroundColor m)
                  \<in> set (drop (length (outputs m)) (outputs ?m'))"
      by simp
    show ?thesis
    proof (intro exI conjI)
      show "start_game_result T totalTime highScoreMs m
              = Some (Inr (totalTime + T, ucast T, ?m'))"
        by (rule run)
      show "(Centered (Lit ''NEW RECORD!'') (fontColor m) (backgroundColor m)
               \<in> set (drop (length (outputs m)) (outputs ?m')))
            = (T < ucast highScoreMs \<or> highScoreMs = 0)"
        using banner True by (simp only: simp_thms)
      show "T < ucast highScoreMs \<or> highScoreMs = 0 \<longrightarrow>
              unat (read_high_score ?m') = unat T \<and> unat (ucast T :: uint16_t) = unat T"
        by (simp only: stored m16) simp
      show "\<not> (T < ucast highScoreMs \<or> highScoreMs = 0) \<longrightarrow>
              eeprom ?m' = eeprom m \<and> (ucast T :: uint16_t) = highScoreMs"
        using True by (simp only: simp_thms)
    qed
  next
    case False
    let ?m' = "oled_putStringHorizontallyCentered (Lit (decimal (unat T) @ '' ms''))
                 (oled_clearScreen (oled_clearScreen m))"
    have run: "start_game_result T totalTime highScoreMs m
                 = Some (Inr (totalTime + T, highScoreMs, ?m'))"
      using small False by (rule start_game_result_no_record)
    have e: "eeprom ?m' = eeprom m"
      by simp
    have banner: "Centered (Lit ''NEW RECORD!'') (fontColor m) (backgroundColor m)
                  \<notin> set (drop (length (outputs m)) (outputs ?m'))"
      by simp
    show ?thesis
    proof (intro exI conjI)
      show "start_game_result T totalTime highScoreMs m
              = Some (Inr (totalTime + T, highScoreMs, ?m'))"
        by (rule run)
      show "(Centered (Lit ''NEW RECORD!'') (fontColor m) (backgroundColor m)
               \<in> set (drop (length (outputs m)) (outputs ?m')))
            = (T < ucast highScoreMs \<or> highScoreMs = 0)"
        using banner False by (simp only: simp_thms)
      show "T < ucast highScoreMs \<or> highScoreMs = 0 \<longrightarrow>
              unat (read_high_score ?m') = unat T \<and> unat highScoreMs = unat T"
        using False by (simp only: simp_thms)
      show "\<not> (T < ucast highScoreMs \<or> highScoreMs = 0) \<longrightarrow>
              eeprom ?m' = eeprom m \<and> highScoreMs = highScoreMs"
        using e by (simp only: simp_thms)
    qed
  qed
qed

theorem C1_result_step_witness:
  "10 \<le> unat (250 :: uint32_t)
   \<and> read_high_score (set_high_score 300 boot_machine) = 300
   \<and> start_game_result 250 0 300 (set_high_score 300 boot_machine) = Some (Inl Buffer_Overflow)
   \<and> sprintf_u 5 250 = Inr ''250'' \<and> strcat 5 ''250'' '' ms'' = Inl Buffer_Overflow
   \<and> unat (5 :: uint32_t) < 10
   \<and> ((5 :: uint32_t) < ucast (9 :: uint16_t) \<or> (9 :: uint16_t) = 0)
   \<and> (\<exists>highScoreMs' m'.
        start_game_result 5 0 9 (set_high_score 9 boot_machine) = Some (Inr (5, highScoreMs', m'))
        \<and> unat (read_high_score m') = 5 \<and> unat highScoreMs' = 5)"
proof -
  have big: "10 \<le> unat (250 :: uint32_t)"
    by simp
  have small: "unat (5 :: uint32_t) < 10"
    by simp
  have win: "(5 :: uint32_t) < ucast (9 :: uint16_t) \<or> (9 :: uint16_t) = 0"
    by simp
  have digits: "decimal 250 = ''250''"
    by code_simp
  have s: "sprintf_u 5 250 = Inr ''250''"
    by (simp add: sprintf_u_def digits)
  have c: "strcat 5 ''250'' '' ms'' = Inl Buffer_Overflow"
    by (simp add: strcat_def)
  note t1 = C1_result_step [of 250 0 300 "set_high_score 300 boot_machine"]
  from t1 big
  have a: "start_game_result 250 0 300 (set_high_score 300 boot_machine)
             = Some (Inl Buffer_Overflow)"
    by blast
  note t2 = C1_result_step [of 5 0 9 "set_high_score 9 boot_machine"]
  from t2 small win obtain h' m' where
    "start_game_result 5 0 9 (set_high_score 9 boot_machine) = Some (Inr (0 + 5, h', m'))"
    and "unat (read_high_score m') = unat (5 :: uint32_t)"
    and "unat h' = unat (5 :: uint32_t)"
    by blast
  then have b: "\<exists>highScoreMs' m'.
        start_game_result 5 0 9 (set_high_score 9 boot_machine) = Some (Inr (5, highScoreMs', m'))
        \<and> unat (read_high_score m') = 5 \<and> unat highScoreMs' = 5"
    by simp
  have r: "read_high_score (set_high_score 300 boot_machine) = 300"
    by simp
  from big r a s c small win b show ?thesis
    by blast
qed

text \<open>
  Claim C10.  \<^verbatim>\<open>set_high_score\<close> takes a \<^verbatim>\<open>uint16_t\<close>, so that a call with a 32-bit time
  stores the time modulo \<open>2^16\<close>.  In \<^verbatim>\<open>start_game\<close> this call is not reached by defined
  behaviour for any time of at least 65536 ms: \<^verbatim>\<open>sprintf\<close> writes the six or more bytes of
  such a time into \<^verbatim>\<open>reactionTimeMsString[5]\<close> first, and the Result step faults.
\<close>

theorem C10_long_time_overflows:
  assumes "65536 \<le> reactionTimeMs"
  shows "start_game_result reactionTimeMs totalTime highScoreMs m = Some (Inl Buffer_Overflow)
     \<and> sprintf_u 5 reactionTimeMs = Inl Buffer_Overflow
     \<and> unat (read_high_score (set_high_score (ucast reactionTimeMs) m))
          = unat reactionTimeMs mod 2 ^ 16"
proof -
  have big: "65536 \<le> unat reactionTimeMs"
    using assms by (simp add: word_le_nat_alt)
  then have "10 \<le> unat reactionTimeMs"
    by simp
  then have a: "start_game_result reactionTimeMs totalTime highScoreMs m
                  = Some (Inl Buffer_Overflow)"
    by (rule start_game_result_overflow)
  have "5 \<le> length (decimal (unat reactionTimeMs))"
    using big by (intro length_decimal_10000) simp
  then have b: "sprintf_u 5 reactionTimeMs = Inl Buffer_Overflow"
    by (simp add: sprintf_u_def)
  have c: "unat (read_high_score (set_high_score (ucast reactionTimeMs) m))
             = unat reactionTimeMs mod 2 ^ 16"
    by (simp add: unat_ucast_32_16)
  from a b c show ?thesis
    by blast
qed

theorem C10_long_time_overflows_witness:
  "(65536 :: uint32_t) \<le> 70000
   \<and> read_high_score boot_machine = 0
   \<and> start_game_result 70000 0 0 boot_machine = Some (Inl Buffer_Overflow)
   \<and> sprintf_u 5 70000 = Inl Buffer_Overflow
   \<and> unat (read_high_score (set_high_score (ucast (70000 :: uint32_t)) boot_machine)) = 4464"
proof -
  have a: "(65536 :: uint32_t) \<le> 70000"
    by simp
  have z: "read_high_score boot_machine = 0"
    by (simp add: read_high_score_bytes boot_machine_def)
  from C10_long_time_overflows [OF a, of 0 0 boot_machine] a z show ?thesis
    by simp
qed

lemma uint_small_word_of_int:
  assumes "0 \<le> k" and "k < 4294967296"
  shows "uint (word_of_int k :: uint32_t) = k"
proof -
  have "uint (word_of_int k :: uint32_t) = k mod 2 ^ 32"
    by (simp add: uint_word_of_int)
  with assms show ?thesis
    by simp
qed

lemma random_delay_nonneg:
  assumes "0 \<le> r"
  shows "uint (random_delay r) = r mod 3000 + 500"
proof -
  have s: "r smod 3000 = r mod 3000"
    using assms by (simp add: smod_int_alt_def sgn_if)
  define k where "k = r mod 3000 + 500"
  have "0 \<le> r mod 3000" and "r mod 3000 < 3000"
    by simp_all
  then have "0 \<le> k" and "k < 4294967296"
    by (simp_all add: k_def)
  then have "uint (word_of_int k :: uint32_t) = k"
    by (rule uint_small_word_of_int)
  then show ?thesis
    by (simp only: random_delay_def s k_def)
qed

lemma random_delay_never_3500: "random_delay r \<noteq> 3500"
proof
  assume e: "random_delay r = 3500"
  define k where "k = r smod 3000 + 500"
  have "r smod 3000 \<in> {- \<bar>3000\<bar> + 1 .. \<bar>3000\<bar> - 1}"
    by (rule smod_int_range) simp
  then have range: "- 2500 < k \<and> k < 3500"
    by (simp add: k_def)
  from e have "uint (word_of_int k :: uint32_t) = uint (3500 :: uint32_t)"
    by (simp only: random_delay_def k_def)
  then have m: "k mod 4294967296 = 3500"
    by (simp only: uint_word_of_int) simp
  show False
  proof (cases "0 \<le> k")
    case True
    with range have "k mod 4294967296 = k" by simp
    with m range show False by simp
  next
    case False
    then have "0 \<le> k + 4294967296" and "k + 4294967296 < 4294967296"
      using range by simp_all
    then have "(k + 4294967296) mod 4294967296 = k + 4294967296"
      by (rule mod_pos_pos_trivial)
    then have "k mod 4294967296 = k + 4294967296"
      by simp
    with m range show False by simp
  qed
qed

text \<open>The wait phase of a round in closed form: the theme tone is played when the text
  colour changes, then the cue tone, then the hold of \<open>random_delay r\<close> milliseconds.\<close>

lemma start_game_wait_closed:
  "start_game_wait round reading r m =
     (let m0 = emit (SetChar (48 + unat round)) (set_led_bar_position round m);
          font = (if reading < 125 then OLED_COLOR_WHITE else OLED_COLOR_BLACK);
          back = (if reading < 125 then OLED_COLOR_BLACK else OLED_COLOR_WHITE);
          m1 = (if fontColor m = font then m0\<lparr>fontColor := font, backgroundColor := back\<rparr>
                else square_wave 89 2272 (m0\<lparr>fontColor := font, backgroundColor := back\<rparr>));
          m3 = square_wave 66 3816
                 (oled_putStringHorizontallyCentered (Lit ''WAIT...'')
                    (emit (DrawCircle font) (oled_clearScreen m1)))
      in Some (emit (FillCircle font) (delay32Ms (random_delay r) m3)))"
proof (cases "reading < 125")
  case True
  then show ?thesis
    by (simp add: start_game_wait_def adjust_theme_night play_note_C_250 Let_def
        set_led_bar_position_def)
next
  case False
  then show ?thesis
    by (simp add: start_game_wait_def adjust_theme_day play_note_C_250 Let_def
        set_led_bar_position_def)
qed

lemma start_game_wait_clock:
  "\<exists>m'. start_game_wait round reading r m = Some m'
     \<and> clock_us m' = clock_us m
          + (if fontColor m = (if reading < 125 then OLED_COLOR_WHITE else OLED_COLOR_BLACK)
             then 0 else 101104)
          + 125928 + 1000 * unat (random_delay r)"
  by (simp add: start_game_wait_closed Let_def set_led_bar_position_def)

text \<open>The values of \<^verbatim>\<open>rand()\<close> that give the delay \<open>d\<close> are \<open>d - 500\<close>, \<open>d - 500 + 3000\<close>,
  \<open>d - 500 + 6000\<close>, ... up to \<^verbatim>\<open>RAND_MAX\<close>.\<close>

lemma rand_draws_image:
  assumes "500 \<le> d" and "d \<le> 3499"
  shows "rand_draws RAND_MAX d
           = (\<lambda>j. 3000 * j + (d - 500)) ` {0 .. (RAND_MAX - (d - 500)) div 3000}"
proof (rule set_eqI, rule iffI)
  fix r
  assume "r \<in> rand_draws RAND_MAX d"
  then have r0: "0 \<le> r" and rN: "r \<le> RAND_MAX" and u: "uint (random_delay r) = d"
    by (simp_all add: rand_draws_def)
  from u r0 have k: "r mod 3000 = d - 500"
    by (simp add: random_delay_nonneg)
  have j0: "0 \<le> r div 3000"
    using r0 by simp
  have e: "r = 3000 * (r div 3000) + (d - 500)"
    using k mult_div_mod_eq [of 3000 r] by simp
  then have "3000 * (r div 3000) \<le> RAND_MAX - (d - 500)"
    using rN by simp
  then have "(3000 * (r div 3000)) div 3000 \<le> (RAND_MAX - (d - 500)) div 3000"
    by (rule zdiv_mono1) simp
  then have "r div 3000 \<le> (RAND_MAX - (d - 500)) div 3000"
    by simp
  with j0 e show "r \<in> (\<lambda>j. 3000 * j + (d - 500)) ` {0 .. (RAND_MAX - (d - 500)) div 3000}"
    by (intro image_eqI [where x = "r div 3000"]) simp_all
next
  fix r
  assume "r \<in> (\<lambda>j. 3000 * j + (d - 500)) ` {0 .. (RAND_MAX - (d - 500)) div 3000}"
  then obtain j where r: "r = 3000 * j + (d - 500)" and j0: "0 \<le> j"
    and jq: "j \<le> (RAND_MAX - (d - 500)) div 3000"
    by auto
  have r0: "0 \<le> r"
    using r j0 assms by simp
  have "3000 * j \<le> 3000 * ((RAND_MAX - (d - 500)) div 3000)"
    using jq by simp
  also have "\<dots> \<le> RAND_MAX - (d - 500)"
    by simp
  finally have rN: "r \<le> RAND_MAX"
    using r by simp
  have "r mod 3000 = d - 500"
    using r assms by simp
  then have "uint (random_delay r) = d"
    using r0 by (simp add: random_delay_nonneg)
  with r0 rN show "r \<in> rand_draws RAND_MAX d"
    by (simp add: rand_draws_def)
qed

lemma card_rand_draws:
  assumes "500 \<le> d" and "d \<le> 3499"
  shows "card (rand_draws RAND_MAX d) = nat ((RAND_MAX - (d - 500)) div 3000 + 1)"
proof -
  have "inj_on (\<lambda>j :: int. 3000 * j + (d - 500)) {0 .. (RAND_MAX - (d - 500)) div 3000}"
    by (rule inj_onI) simp
  then have "card ((\<lambda>j. 3000 * j + (d - 500)) ` {0 .. (RAND_MAX - (d - 500)) div 3000})
               = card {0 .. (RAND_MAX - (d - 500)) div 3000}"
    by (rule card_image)
  then show ?thesis
    by (simp add: rand_draws_image [OF assms])
qed

lemma div_shift_iff:
  fixes n :: int
  shows "(n div 3000 = (n - 2999) div 3000) = (3000 dvd n + 1)"
proof -
  define q where "q = (n + 1) div 3000"
  define s where "s = (n + 1) mod 3000"
  have s0: "0 \<le> s" and s1: "s < 3000"
    by (simp_all add: s_def)
  have n: "n + 1 = 3000 * q + s"
    by (simp add: q_def s_def)
  have low: "(n - 2999) div 3000 = q - 1"
    by (rule int_div_pos_eq [where r = s]) (use n s0 s1 in simp_all)
  show ?thesis
  proof (cases "s = 0")
    case True
    have "n div 3000 = q - 1"
      by (rule int_div_pos_eq [where r = 2999]) (use n True in simp_all)
    moreover have "3000 dvd n + 1"
      using True by (simp add: s_def mod_eq_0_iff_dvd)
    ultimately show ?thesis
      using low by simp
  next
    case False
    have "n div 3000 = q"
      by (rule int_div_pos_eq [where r = "s - 1"]) (use n s0 s1 False in simp_all)
    moreover have "\<not> 3000 dvd n + 1"
      using False by (simp add: s_def mod_eq_0_iff_dvd)
    ultimately show ?thesis
      using low by simp
  qed
qed

lemma rand_draws_uniform_iff:
  assumes "2999 \<le> RAND_MAX"
  shows "(card (rand_draws RAND_MAX 500) = card (rand_draws RAND_MAX 3499))
           = (3000 dvd RAND_MAX + 1)"
proof -
  have a: "0 \<le> RAND_MAX div 3000 + 1" and b: "0 \<le> (RAND_MAX - 2999) div 3000 + 1"
    using assms by simp_all
  have "(nat (RAND_MAX div 3000 + 1) = nat ((RAND_MAX - 2999) div 3000 + 1))
          = (RAND_MAX div 3000 = (RAND_MAX - 2999) div 3000)"
    using a b by (simp add: nat_eq_iff)
  also have "\<dots> = (3000 dvd RAND_MAX + 1)"
    by (rule div_shift_iff)
  finally show ?thesis
    by (simp add: card_rand_draws)
qed

lemma rand_draws_uniform_all:
  assumes "3000 dvd RAND_MAX + 1" and "500 \<le> d" and "d \<le> 3499"
  shows "card (rand_draws RAND_MAX d) = card (rand_draws RAND_MAX 500)"
proof -
  from assms(1) obtain q where q: "RAND_MAX + 1 = 3000 * q"
    by (auto simp add: dvd_def)
  have level: "(RAND_MAX - k) div 3000 = q - 1" if "0 \<le> k" and "k \<le> 2999" for k
    by (rule int_div_pos_eq [where r = "2999 - k"]) (use q that in simp_all)
  have "(RAND_MAX - (d - 500)) div 3000 = q - 1"
    using assms(2,3) by (intro level) simp_all
  moreover have "(RAND_MAX - (500 - 500)) div 3000 = q - 1"
    by (intro level) simp_all
  ultimately show ?thesis
    using assms(2,3) by (simp only: card_rand_draws [OF assms(2,3)] card_rand_draws [of 500])
qed

text \<open>
  Claim C9, as amended.  In every round the wait phase returns and holds for
  \<open>500 + (rand() mod 3000)\<close> milliseconds before the stimulus, after the tones.  For every
  value that \<^verbatim>\<open>rand()\<close> can return (a non-negative \<^verbatim>\<open>int\<close>) the delay lies in
  \<open>[500, 3499]\<close>, every value of that interval is the delay for some \<^verbatim>\<open>rand()\<close> value
  between 0 and 2999, and no value of \<^verbatim>\<open>rand()\<close> gives 3500.  A delay \<open>d\<close> of the interval
  arises from \<open>(RAND_MAX - (d - 500)) div 3000 + 1\<close> of the values \<open>0, ..., RAND_MAX\<close> of
  \<^verbatim>\<open>rand()\<close>, so that with \<^verbatim>\<open>rand()\<close> uniform over these values the draw and the delay are
  uniform exactly when 3000 divides \<open>RAND_MAX + 1\<close>: then all delays arise equally often,
  and otherwise the delays 500 and 3499 do not.
\<close>

theorem C9_random_delay_range:
  "(\<exists>m'. start_game_wait round reading r m = Some m'
      \<and> clock_us m' = clock_us m
          + (if fontColor m = (if reading < 125 then OLED_COLOR_WHITE else OLED_COLOR_BLACK)
             then 0 else 101104)
          + 125928 + 1000 * unat (random_delay r))
   \<and> (0 \<le> r \<longrightarrow> uint (random_delay r) = 500 + r mod 3000
                  \<and> 500 \<le> uint (random_delay r) \<and> uint (random_delay r) \<le> 3499)
   \<and> (500 \<le> d \<and> d \<le> 3499 \<longrightarrow>
         0 \<le> d - 500 \<and> d - 500 \<le> 2999 \<and> uint (random_delay (d - 500)) = d
         \<and> card (rand_draws RAND_MAX d) = nat ((RAND_MAX - (d - 500)) div 3000 + 1))
   \<and> random_delay r \<noteq> 3500
   \<and> (2999 \<le> RAND_MAX \<longrightarrow>
         (card (rand_draws RAND_MAX 500) = card (rand_draws RAND_MAX 3499))
           = (3000 dvd RAND_MAX + 1))
   \<and> (3000 dvd RAND_MAX + 1 \<and> 500 \<le> d \<and> d \<le> 3499 \<longrightarrow>
         card (rand_draws RAND_MAX d) = card (rand_draws RAND_MAX 500))"
proof (intro conjI impI)
  show "\<exists>m'. start_game_wait round reading r m = Some m'
      \<and> clock_us m' = clock_us m
          + (if fontColor m = (if reading < 125 then OLED_COLOR_WHITE else OLED_COLOR_BLACK)
             then 0 else 101104)
          + 125928 + 1000 * unat (random_delay r)"
    by (rule start_game_wait_clock)
next
  assume "0 \<le> r"
  then have u: "uint (random_delay r) = r mod 3000 + 500"
    by (rule random_delay_nonneg)
  have "0 \<le> r mod 3000" and "r mod 3000 < 3000"
    by simp_all
  then show "uint (random_delay r) = 500 + r mod 3000"
    and "500 \<le> uint (random_delay r)" and "uint (random_delay r) \<le> 3499"
    using u by simp_all
next
  assume d: "500 \<le> d \<and> d \<le> 3499"
  then show "0 \<le> d - 500" and "d - 500 \<le> 2999"
    by simp_all
  from d have "uint (random_delay (d - 500)) = (d - 500) mod 3000 + 500"
    by (simp add: random_delay_nonneg)
  with d show "uint (random_delay (d - 500)) = d"
    by simp
  from d show "card (rand_draws RAND_MAX d) = nat ((RAND_MAX - (d - 500)) div 3000 + 1)"
    by (intro card_rand_draws) simp_all
next
  show "random_delay r \<noteq> 3500"
    by (rule random_delay_never_3500)
next
  assume "2999 \<le> RAND_MAX"
  then show "(card (rand_draws RAND_MAX 500) = card (rand_draws RAND_MAX 3499))
           = (3000 dvd RAND_MAX + 1)"
    by (rule rand_draws_uniform_iff)
next
  assume "3000 dvd RAND_MAX + 1 \<and> 500 \<le> d \<and> d \<le> 3499"
  then show "card (rand_draws RAND_MAX d) = card (rand_draws RAND_MAX 500)"
    by (intro rand_draws_uniform_all) simp_all
qed

theorem C9_random_delay_range_witness:
  "(0 :: int) \<le> 32767 \<and> uint (random_delay 32767) = 3267
   \<and> 500 \<le> (3499 :: int) \<and> (3499 :: int) \<le> 3499 \<and> uint (random_delay 2999) = 3499
   \<and> card (rand_draws 32767 3499) = 10
   \<and> (2999 :: int) \<le> 32767 \<and> \<not> (3000 :: int) dvd 32767 + 1
   \<and> card (rand_draws 32767 500) \<noteq> card (rand_draws 32767 3499)"
proof -
  note t = C9_random_delay_range [of 0 0 32767 boot_machine 3499 32767]
  from t have "uint (random_delay 32767) = 500 + 32767 mod 3000"
    by simp
  then have a: "uint (random_delay 32767) = 3267"
    by simp
  from t have "uint (random_delay (3499 - 500)) = 3499"
    and "card (rand_draws 32767 3499) = nat ((32767 - (3499 - 500)) div 3000 + 1)"
    by simp_all
  then have b: "uint (random_delay 2999) = 3499" and c: "card (rand_draws 32767 3499) = 10"
    by simp_all
  have n: "\<not> (3000 :: int) dvd 32767 + 1"
    by simp
  from t have "(card (rand_draws 32767 500) = card (rand_draws 32767 3499))
                 = ((3000 :: int) dvd 32767 + 1)"
    by simp
  with n have e: "card (rand_draws 32767 500) \<noteq> card (rand_draws 32767 3499)"
    by simp
  from a b c n e show ?thesis
    by simp
qed

text \<open>The claim as stated fails at the endpoint and in the distribution: no value of
  \<^verbatim>\<open>rand()\<close> gives a delay of 3500 ms (the largest delay is 3499 ms), and with
  \<^verbatim>\<open>RAND_MAX = 32767\<close> the delay 500 arises from 11 values of \<^verbatim>\<open>rand()\<close> and the delay
  3499 from 10.\<close>

theorem C9_endpoint_counterexample:
  "\<not> (\<exists>r. random_delay r = 3500) \<and> random_delay 2999 = 3499 \<and> random_delay 3000 = 500
   \<and> card (rand_draws 32767 500) = 11 \<and> card (rand_draws 32767 3499) = 10"
  using random_delay_never_3500
  by (simp add: random_delay_def smod_int_alt_def card_rand_draws)

subsection \<open>ReactionTimer\<close>

text \<open>The wait reads the samples up to the first one with the confirm bit set, one
  millisecond apart, and returns there.\<close>

lemma wait_for_joystick_center_click_closed:
  "wait_for_joystick_center_click jb js m =
     (let k = length (takeWhile (\<lambda>j. j AND JOYSTICK_CENTER jb = 0) js)
      in if k < length js
         then Some (drop (Suc k) js, m\<lparr>clock_us := clock_us m + 1000 * k\<rparr>)
         else None)"
proof (induction js arbitrary: m)
  case Nil
  show ?case by simp
next
  case (Cons j js)
  show ?case
  proof (cases "j AND JOYSTICK_CENTER jb = 0")
    case True
    then show ?thesis
      by (simp add: Cons.IH Let_def delay32Ms_def)
  next
    case False
    then show ?thesis
      by simp
  qed
qed

lemma measure_reaction_time_closed:
  "measure_reaction_time jb js m =
     (let k = length (takeWhile (\<lambda>j. j AND JOYSTICK_CENTER jb = 0) js)
      in if k < length js
         then Some (of_nat k, drop (Suc k) js, m\<lparr>clock_us := clock_us m + 1000 * k\<rparr>)
         else None)"
  by (simp add: measure_reaction_time_def wait_for_joystick_center_click_closed Let_def)

text \<open>
  Claim C2, as amended.  \<^verbatim>\<open>measure_reaction_time\<close> starts the millisecond counter at 0
  and polls the confirm input once per millisecond; it returns at the first poll that
  reads the input pressed (level-triggered), with the number of polls that read it
  released as the counter value, and it does not return while every poll reads released.
  A confirm button that is already held when the timer is armed fires at once, with a
  counter value of 0.
\<close>

theorem C2_measure_reaction_time:
  "measure_reaction_time jb js m =
     (let k = length (takeWhile (\<lambda>j. j AND JOYSTICK_CENTER jb = 0) js)
      in if k < length js
         then Some (of_nat k, drop (Suc k) js, m\<lparr>clock_us := clock_us m + 1000 * k\<rparr>)
         else None)
   \<and> (j AND JOYSTICK_CENTER jb \<noteq> 0 \<longrightarrow> measure_reaction_time jb (j # js) m = Some (0, js, m))
   \<and> ((\<forall>j \<in> set js. j AND JOYSTICK_CENTER jb = 0) \<longrightarrow> measure_reaction_time jb js m = None)"
proof (intro conjI impI)
  show "measure_reaction_time jb js m =
     (let k = length (takeWhile (\<lambda>j. j AND JOYSTICK_CENTER jb = 0) js)
      in if k < length js
         then Some (of_nat k, drop (Suc k) js, m\<lparr>clock_us := clock_us m + 1000 * k\<rparr>)
         else None)"
    by (rule measure_reaction_time_closed)
next
  assume "j AND JOYSTICK_CENTER jb \<noteq> 0"
  then show "measure_reaction_time jb (j # js) m = Some (0, js, m)"
    by (simp add: measure_reaction_time_def)
next
  assume "\<forall>j \<in> set js. j AND JOYSTICK_CENTER jb = 0"
  then have tw: "takeWhile (\<lambda>j. j AND JOYSTICK_CENTER jb = 0) js = js"
    by (simp add: takeWhile_eq_all_conv)
  show "measure_reaction_time jb js m = None"
    by (simp only: measure_reaction_time_closed tw Let_def) simp
qed

theorem C2_measure_reaction_time_witness:
  "(1 :: uint8_t) AND JOYSTICK_CENTER example_bits \<noteq> 0
   \<and> measure_reaction_time example_bits [1, 1, 0, 0, 1] boot_machine
       = Some (0, [1, 0, 0, 1], boot_machine)
   \<and> (0 :: uint8_t) AND JOYSTICK_CENTER example_bits = 0
   \<and> (2 :: uint8_t) AND JOYSTICK_CENTER example_bits = 0
   \<and> (4 :: uint8_t) AND JOYSTICK_CENTER example_bits = 0
   \<and> measure_reaction_time example_bits [0, 2, 4] boot_machine = None"
proof -
  have p: "(1 :: uint8_t) AND JOYSTICK_CENTER example_bits \<noteq> 0"
    by (simp add: example_bits_def)
  have r0: "(0 :: uint8_t) AND JOYSTICK_CENTER example_bits = 0"
    and r2: "(2 :: uint8_t) AND JOYSTICK_CENTER example_bits = 0"
    and r4: "(4 :: uint8_t) AND JOYSTICK_CENTER example_bits = 0"
    by (simp_all add: example_bits_def)
  then have r: "\<forall>j \<in> set [0, 2, 4 :: uint8_t]. j AND JOYSTICK_CENTER example_bits = 0"
    by simp
  from C2_measure_reaction_time [of example_bits "[1, 0, 0, 1]" boot_machine 1] p
  have a: "measure_reaction_time example_bits [1, 1, 0, 0, 1] boot_machine
             = Some (0, [1, 0, 0, 1], boot_machine)"
    by blast
  from C2_measure_reaction_time [of example_bits "[0, 2, 4]" boot_machine 1] r
  have b: "measure_reaction_time example_bits [0, 2, 4] boot_machine = None"
    by blast
  from p r0 r2 r4 a b show ?thesis
    by blast
qed

text \<open>The claim as stated fails when the confirm button is held from before the timer is
  armed: with the samples pressed, pressed, released, released, pressed, the wait of the
  spec ends on the fifth sample (the released-to-pressed edge, at 4 ms), and
  \<^verbatim>\<open>measure_reaction_time\<close> returns on the first sample with a counter value of 0.\<close>

theorem C2_held_button_counterexample:
  "spec_arm_and_wait_for_input (JOYSTICK_CENTER example_bits) True [1, 1, 0, 0, 1] = Some 4
   \<and> measure_reaction_time example_bits [1, 1, 0, 0, 1] boot_machine
       = Some (0, [1, 0, 0, 1], boot_machine)"
  by (simp add: measure_reaction_time_def example_bits_def)

subsection \<open>MenuController\<close>

lemma foldl_emit_fields:
  "clock_us (foldl (\<lambda>acc i. emit (f i) acc) a xs) = clock_us a"
  "speaker (foldl (\<lambda>acc i. emit (f i) acc) a xs) = speaker a"
  "eeprom (foldl (\<lambda>acc i. emit (f i) acc) a xs) = eeprom a"
  "fontColor (foldl (\<lambda>acc i. emit (f i) acc) a xs) = fontColor a"
  "backgroundColor (foldl (\<lambda>acc i. emit (f i) acc) a xs) = backgroundColor a"
  "tilt (foldl (\<lambda>acc i. emit (f i) acc) a xs) = tilt a"
  "selectedIndex (foldl (\<lambda>acc i. emit (f i) acc) a xs) = selectedIndex a"
  by (induction xs arbitrary: a; simp)+

lemma draw_menu_fields [simp]:
  "clock_us (draw_menu m) = clock_us m"
  "speaker (draw_menu m) = speaker m"
  "eeprom (draw_menu m) = eeprom m"
  "fontColor (draw_menu m) = fontColor m"
  "backgroundColor (draw_menu m) = backgroundColor m"
  "tilt (draw_menu m) = tilt m"
  "selectedIndex (draw_menu m) = selectedIndex m"
  by (simp_all add: draw_menu_def foldl_emit_fields)

text \<open>The background part of a pass always ends the pass, with the joystick sample as
  the new \<^verbatim>\<open>previous_joy\<close>, and leaves the selection alone.\<close>

lemma handle_menu_background_returns:
  "\<exists>m'. handle_menu_background p m = Some (Polling (joy p) m')
        \<and> selectedIndex m' = selectedIndex m"
proof -
  obtain tilted m1 where t: "is_board_tilted (acc p) m = (tilted, m1)"
    by (cases "is_board_tilted (acc p) m")
  have "selectedIndex (snd (is_board_tilted (acc p) m)) = selectedIndex m"
    by simp
  with t have s1: "selectedIndex m1 = selectedIndex m"
    by simp
  define m2 where "m2 = (if tilted \<noteq> 0
                then delay32Ms 500
                       (oled_putStringHorizontallyCentered (Lit ''Reset HS'') (set_high_score 9999 m1))
                else m1)"
  have s2: "selectedIndex m2 = selectedIndex m"
    by (simp add: m2_def s1)
  obtain changed m3 where a: "adjust_theme (light p) m2 = Some (changed, m3)"
    and s3: "selectedIndex m3 = selectedIndex m2"
    using adjust_theme_returns [of "light p" m2] by blast
  have "handle_menu_background p m
          = Some (Polling (joy p) (delay32Ms 50 (if changed \<noteq> 0 then draw_menu m3 else m3)))"
    using a by (simp add: handle_menu_background_def t m2_def [symmetric])
  moreover have "selectedIndex (delay32Ms 50 (if changed \<noteq> 0 then draw_menu m3 else m3))
                   = selectedIndex m"
    by (simp add: s3 s2)
  ultimately show ?thesis
    by blast
qed

lemma handle_menu_poll_down:
  assumes "joy p AND JOYSTICK_DOWN jb \<noteq> 0" and "previous_joy AND JOYSTICK_DOWN jb = 0"
  shows "\<exists>m'. handle_menu_poll jb previous_joy p m = Some (Polling (joy p) m')
           \<and> selectedIndex m' = (selectedIndex m + 1) smod MENU_ITEM_COUNT"
proof -
  let ?m = "draw_menu (m\<lparr>selectedIndex := (selectedIndex m + 1) smod MENU_ITEM_COUNT\<rparr>)"
  have "handle_menu_poll jb previous_joy p m = handle_menu_background p ?m"
    using assms by (simp add: handle_menu_poll_def)
  with handle_menu_background_returns [of p ?m] show ?thesis
    by simp
qed

lemma handle_menu_poll_up:
  assumes "\<not> (joy p AND JOYSTICK_DOWN jb \<noteq> 0 \<and> previous_joy AND JOYSTICK_DOWN jb = 0)"
    and "joy p AND JOYSTICK_UP jb \<noteq> 0" and "previous_joy AND JOYSTICK_UP jb = 0"
  shows "\<exists>m'. handle_menu_poll jb previous_joy p m = Some (Polling (joy p) m')
           \<and> selectedIndex m' = (selectedIndex m - 1 + MENU_ITEM_COUNT) smod MENU_ITEM_COUNT"
proof -
  let ?m = "draw_menu (m\<lparr>selectedIndex :=
              (selectedIndex m - 1 + MENU_ITEM_COUNT) smod MENU_ITEM_COUNT\<rparr>)"
  have "handle_menu_poll jb previous_joy p m = handle_menu_background p ?m"
    using assms by (auto simp add: handle_menu_poll_def)
  with handle_menu_background_returns [of p ?m] show ?thesis
    by simp
qed

lemma handle_menu_poll_center:
  assumes "\<not> (joy p AND JOYSTICK_DOWN jb \<noteq> 0 \<and> previous_joy AND JOYSTICK_DOWN jb = 0)"
    and "\<not> (joy p AND JOYSTICK_UP jb \<noteq> 0 \<and> previous_joy AND JOYSTICK_UP jb = 0)"
    and "joy p AND JOYSTICK_CENTER jb \<noteq> 0" and "previous_joy AND JOYSTICK_CENTER jb = 0"
  shows "handle_menu_poll jb previous_joy p m = Some (Selected (selectedIndex m) m)"
  using assms by (auto simp add: handle_menu_poll_def)

lemma handle_menu_poll_idle:
  assumes "\<not> (joy p AND JOYSTICK_DOWN jb \<noteq> 0 \<and> previous_joy AND JOYSTICK_DOWN jb = 0)"
    and "\<not> (joy p AND JOYSTICK_UP jb \<noteq> 0 \<and> previous_joy AND JOYSTICK_UP jb = 0)"
    and "\<not> (joy p AND JOYSTICK_CENTER jb \<noteq> 0 \<and> previous_joy AND JOYSTICK_CENTER jb = 0)"
  shows "\<exists>m'. handle_menu_poll jb previous_joy p m = Some (Polling (joy p) m')
           \<and> selectedIndex m' = selectedIndex m"
proof -
  have "handle_menu_poll jb previous_joy p m = handle_menu_background p m"
    using assms by (auto simp add: handle_menu_poll_def)
  with handle_menu_background_returns [of p m] show ?thesis
    by simp
qed

lemma menu_next_in_range:
  assumes "0 \<le> i" and "i < MENU_ITEM_COUNT"
  shows "(i + 1) smod MENU_ITEM_COUNT = (i + 1) mod MENU_ITEM_COUNT"
    and "0 \<le> (i + 1) smod MENU_ITEM_COUNT" and "(i + 1) smod MENU_ITEM_COUNT < MENU_ITEM_COUNT"
  using assms by (simp_all add: MENU_ITEM_COUNT_def smod_int_alt_def sgn_if)

lemma menu_prev_in_range:
  assumes "0 \<le> i" and "i < MENU_ITEM_COUNT"
  shows "(i - 1 + MENU_ITEM_COUNT) smod MENU_ITEM_COUNT = (i - 1 + MENU_ITEM_COUNT) mod MENU_ITEM_COUNT"
    and "0 \<le> (i - 1 + MENU_ITEM_COUNT) smod MENU_ITEM_COUNT"
    and "(i - 1 + MENU_ITEM_COUNT) smod MENU_ITEM_COUNT < MENU_ITEM_COUNT"
  using assms by (simp_all add: MENU_ITEM_COUNT_def smod_int_alt_def sgn_if)

text \<open>A pass keeps the selection in range.\<close>

lemma handle_menu_poll_in_range:
  assumes "0 \<le> selectedIndex m" and "selectedIndex m < MENU_ITEM_COUNT"
  shows "\<exists>r. handle_menu_poll jb previous_joy p m = Some r
           \<and> 0 \<le> selectedIndex (after r) \<and> selectedIndex (after r) < MENU_ITEM_COUNT
           \<and> (\<forall>i m'. r = Selected i m' \<longrightarrow> i = selectedIndex m' \<and> m' = m)"
proof -
  consider (down) "joy p AND JOYSTICK_DOWN jb \<noteq> 0 \<and> previous_joy AND JOYSTICK_DOWN jb = 0"
    | (up) "\<not> (joy p AND JOYSTICK_DOWN jb \<noteq> 0 \<and> previous_joy AND JOYSTICK_DOWN jb = 0)"
        "joy p AND JOYSTICK_UP jb \<noteq> 0 \<and> previous_joy AND JOYSTICK_UP jb = 0"
    | (center) "\<not> (joy p AND JOYSTICK_DOWN jb \<noteq> 0 \<and> previous_joy AND JOYSTICK_DOWN jb = 0)"
        "\<not> (joy p AND JOYSTICK_UP jb \<noteq> 0 \<and> previous_joy AND JOYSTICK_UP jb = 0)"
        "joy p AND JOYSTICK_CENTER jb \<noteq> 0 \<and> previous_joy AND JOYSTICK_CENTER jb = 0"
    | (idle) "\<not> (joy p AND JOYSTICK_DOWN jb \<noteq> 0 \<and> previous_joy AND JOYSTICK_DOWN jb = 0)"
        "\<not> (joy p AND JOYSTICK_UP jb \<noteq> 0 \<and> previous_joy AND JOYSTICK_UP jb = 0)"
        "\<not> (joy p AND JOYSTICK_CENTER jb \<noteq> 0 \<and> previous_joy AND JOYSTICK_CENTER jb = 0)"
    by blast
  then show ?thesis
  proof cases
    case down
    then obtain m' where "handle_menu_poll jb previous_joy p m = Some (Polling (joy p) m')"
      and "selectedIndex m' = (selectedIndex m + 1) smod MENU_ITEM_COUNT"
      using handle_menu_poll_down [of p jb previous_joy m] by blast
    then show ?thesis
      using menu_next_in_range(2,3) [OF assms] by simp
  next
    case up
    then obtain m' where "handle_menu_poll jb previous_joy p m = Some (Polling (joy p) m')"
      and "selectedIndex m' = (selectedIndex m - 1 + MENU_ITEM_COUNT) smod MENU_ITEM_COUNT"
      using handle_menu_poll_up [of p jb previous_joy m] by blast
    then show ?thesis
      using menu_prev_in_range(2,3) [OF assms] by simp
  next
    case center
    then have "handle_menu_poll jb previous_joy p m = Some (Selected (selectedIndex m) m)"
      using handle_menu_poll_center [of p jb previous_joy m] by blast
    then show ?thesis
      using assms by simp
  next
    case idle
    then obtain m' where "handle_menu_poll jb previous_joy p m = Some (Polling (joy p) m')"
      and "selectedIndex m' = selectedIndex m"
      using handle_menu_poll_idle [of p jb previous_joy m] by blast
    then show ?thesis
      using assms by simp
  qed
qed

lemma handle_menu_loop_in_range:
  assumes "0 \<le> selectedIndex m" and "selectedIndex m < MENU_ITEM_COUNT"
  shows "\<exists>r. handle_menu_loop jb previous_joy ps m = Some r
           \<and> 0 \<le> selectedIndex (after r) \<and> selectedIndex (after r) < MENU_ITEM_COUNT
           \<and> (\<forall>i m'. r = Selected i m' \<longrightarrow> i = selectedIndex m')"
  using assms
proof (induction ps arbitrary: previous_joy m)
  case Nil
  then show ?case by simp
next
  case (Cons p ps)
  from handle_menu_poll_in_range [OF Cons.prems, of jb previous_joy p]
  obtain r where r: "handle_menu_poll jb previous_joy p m = Some r"
    and lo: "0 \<le> selectedIndex (after r)" and hi: "selectedIndex (after r) < MENU_ITEM_COUNT"
    and sel: "\<forall>i m'. r = Selected i m' \<longrightarrow> i = selectedIndex m' \<and> m' = m"
    by blast
  show ?case
  proof (cases r)
    case (Selected i m')
    with r lo hi sel show ?thesis by simp
  next
    case (Polling previous_joy' m')
    with lo hi have "0 \<le> selectedIndex m'" and "selectedIndex m' < MENU_ITEM_COUNT"
      by simp_all
    from Cons.IH [OF this, of previous_joy'] r Polling show ?thesis
      by simp
  qed
qed

text \<open>
  Claim C4.  From a selection in \<open>[0, MENU_ITEM_COUNT)\<close>, in particular from index 0, the
  polling loop keeps the selection in that interval after every pass, whatever the
  inputs (every prefix \<open>take n ps\<close> of the polls), and a returned index is in the interval.
  A pass that detects Down maps the index \<open>i\<close> to \<open>(i + 1) mod N\<close>, a pass that detects
  Up maps it to \<open>(i - 1 + N) mod N\<close>, so that Up at index 0 gives \<open>N - 1\<close>; \<open>N\<close> is 5.
\<close>

theorem C4_menu_index_in_range:
  assumes "0 \<le> selectedIndex m \<and> selectedIndex m < MENU_ITEM_COUNT"
  shows "(\<exists>r. handle_menu_loop jb previous_joy (take n ps) m = Some r
            \<and> 0 \<le> selectedIndex (after r) \<and> selectedIndex (after r) < MENU_ITEM_COUNT
            \<and> (\<forall>i m'. r = Selected i m' \<longrightarrow> 0 \<le> i \<and> i < MENU_ITEM_COUNT))
     \<and> (joy p AND JOYSTICK_DOWN jb \<noteq> 0 \<and> previous_joy AND JOYSTICK_DOWN jb = 0 \<longrightarrow>
          (\<exists>m'. handle_menu_poll jb previous_joy p m = Some (Polling (joy p) m')
             \<and> selectedIndex m' = (selectedIndex m + 1) mod MENU_ITEM_COUNT))
     \<and> (\<not> (joy p AND JOYSTICK_DOWN jb \<noteq> 0 \<and> previous_joy AND JOYSTICK_DOWN jb = 0)
          \<and> joy p AND JOYSTICK_UP jb \<noteq> 0 \<and> previous_joy AND JOYSTICK_UP jb = 0 \<longrightarrow>
          (\<exists>m'. handle_menu_poll jb previous_joy p m = Some (Polling (joy p) m')
             \<and> selectedIndex m' = (selectedIndex m - 1 + MENU_ITEM_COUNT) mod MENU_ITEM_COUNT
             \<and> (selectedIndex m = 0 \<longrightarrow> selectedIndex m' = MENU_ITEM_COUNT - 1)))
     \<and> MENU_ITEM_COUNT = 5"
proof (intro conjI impI)
  have lo: "0 \<le> selectedIndex m" and hi: "selectedIndex m < MENU_ITEM_COUNT"
    using assms by simp_all
  from handle_menu_loop_in_range [OF lo hi, of jb previous_joy "take n ps"]
  show "\<exists>r. handle_menu_loop jb previous_joy (take n ps) m = Some r
            \<and> 0 \<le> selectedIndex (after r) \<and> selectedIndex (after r) < MENU_ITEM_COUNT
            \<and> (\<forall>i m'. r = Selected i m' \<longrightarrow> 0 \<le> i \<and> i < MENU_ITEM_COUNT)"
    by fastforce
  show "MENU_ITEM_COUNT = 5"
    by (rule MENU_ITEM_COUNT_def)
  {
    assume "joy p AND JOYSTICK_DOWN jb \<noteq> 0 \<and> previous_joy AND JOYSTICK_DOWN jb = 0"
    then obtain m' where "handle_menu_poll jb previous_joy p m = Some (Polling (joy p) m')"
      and "selectedIndex m' = (selectedIndex m + 1) smod MENU_ITEM_COUNT"
      using handle_menu_poll_down [of p jb previous_joy m] by blast
    then show "\<exists>m'. handle_menu_poll jb previous_joy p m = Some (Polling (joy p) m')
             \<and> selectedIndex m' = (selectedIndex m + 1) mod MENU_ITEM_COUNT"
      using menu_next_in_range(1) [OF lo hi] by simp
  }
  {
    assume "\<not> (joy p AND JOYSTICK_DOWN jb \<noteq> 0 \<and> previous_joy AND JOYSTICK_DOWN jb = 0)
          \<and> joy p AND JOYSTICK_UP jb \<noteq> 0 \<and> previous_joy AND JOYSTICK_UP jb = 0"
    then obtain m' where "handle_menu_poll jb previous_joy p m = Some (Polling (joy p) m')"
      and "selectedIndex m' = (selectedIndex m - 1 + MENU_ITEM_COUNT) smod MENU_ITEM_COUNT"
      using handle_menu_poll_up [of p jb previous_joy m] by blast
    then show "\<exists>m'. handle_menu_poll jb previous_joy p m = Some (Polling (joy p) m')
             \<and> selectedIndex m' = (selectedIndex m - 1 + MENU_ITEM_COUNT) mod MENU_ITEM_COUNT
             \<and> (selectedIndex m = 0 \<longrightarrow> selectedIndex m' = MENU_ITEM_COUNT - 1)"
      using menu_prev_in_range(1) [OF lo hi] by (simp add: MENU_ITEM_COUNT_def)
  }
qed

theorem C4_menu_index_in_range_witness:
  "0 \<le> selectedIndex boot_machine \<and> selectedIndex boot_machine < MENU_ITEM_COUNT
   \<and> \<not> (joy (level_poll 2) AND JOYSTICK_DOWN example_bits \<noteq> 0
          \<and> 0 AND JOYSTICK_DOWN example_bits = 0)
   \<and> joy (level_poll 2) AND JOYSTICK_UP example_bits \<noteq> 0 \<and> 0 AND JOYSTICK_UP example_bits = 0
   \<and> (\<exists>m'. handle_menu_poll example_bits 0 (level_poll 2) boot_machine = Some (Polling 2 m')
          \<and> selectedIndex m' = 4)
   \<and> (\<exists>r. handle_menu_loop example_bits 0
              (take 2 [level_poll 4, level_poll 0, level_poll 4]) boot_machine = Some r
          \<and> 0 \<le> selectedIndex (after r) \<and> selectedIndex (after r) < 5)"
proof -
  have range: "0 \<le> selectedIndex boot_machine \<and> selectedIndex boot_machine < MENU_ITEM_COUNT"
    by (simp add: boot_machine_def MENU_ITEM_COUNT_def)
  have z: "selectedIndex boot_machine = 0"
    by (simp add: boot_machine_def)
  have up: "\<not> (joy (level_poll 2) AND JOYSTICK_DOWN example_bits \<noteq> 0
                \<and> 0 AND JOYSTICK_DOWN example_bits = 0)
            \<and> joy (level_poll 2) AND JOYSTICK_UP example_bits \<noteq> 0
            \<and> 0 AND JOYSTICK_UP example_bits = 0"
    by (simp add: level_poll_def example_bits_def)
  have j: "joy (level_poll 2) = 2"
    by (simp add: level_poll_def)
  note t = C4_menu_index_in_range [OF range, of example_bits 0 2
             "[level_poll 4, level_poll 0, level_poll 4]" "level_poll 2"]
  from t up z obtain m' where
    "handle_menu_poll example_bits 0 (level_poll 2) boot_machine
       = Some (Polling (joy (level_poll 2)) m')"
    and "selectedIndex m' = MENU_ITEM_COUNT - 1"
    by blast
  moreover from t have n5: "MENU_ITEM_COUNT = 5"
    by blast
  ultimately have a: "\<exists>m'. handle_menu_poll example_bits 0 (level_poll 2) boot_machine
                             = Some (Polling 2 m') \<and> selectedIndex m' = 4"
    by (simp add: j)
  from t n5 have b: "\<exists>r. handle_menu_loop example_bits 0
              (take 2 [level_poll 4, level_poll 0, level_poll 4]) boot_machine = Some r
          \<and> 0 \<le> selectedIndex (after r) \<and> selectedIndex (after r) < 5"
    by auto
  from range up a b show ?thesis
    by blast
qed

text \<open>While the joystick reads the same on every pass, no pass after the first detects
  anything.\<close>

lemma handle_menu_loop_held:
  assumes "\<forall>q \<in> set ps. joy q = j"
  shows "\<exists>m'. handle_menu_loop jb j ps m = Some (Polling j m')
           \<and> selectedIndex m' = selectedIndex m"
  using assms
proof (induction ps arbitrary: m)
  case Nil
  then show ?case by simp
next
  case (Cons q ps)
  then have q: "joy q = j" and rest: "\<forall>q \<in> set ps. joy q = j"
    by simp_all
  from q obtain m1 where p1: "handle_menu_poll jb j q m = Some (Polling j m1)"
    and s1: "selectedIndex m1 = selectedIndex m"
    using handle_menu_poll_idle [of q jb j m] by auto
  from Cons.IH [OF rest, of m1] obtain m' where
    "handle_menu_loop jb j ps m1 = Some (Polling j m')" and "selectedIndex m' = selectedIndex m1"
    by blast
  with p1 s1 show ?case
    by simp
qed

text \<open>
  Claim C5, as amended.  While the joystick is held with unchanged raw bits over
  consecutive passes (\<open>p\<close> and then \<open>ps\<close>), the loop does not return and navigates at most
  once, on the first of these passes and relative to the stored value \<open>previous_joy\<close> of
  the pass before: if the Down bit went from 0 to 1 the selection moves down once; if the
  Up bit went from 0 to 1 and Down was not detected on that pass the selection moves up
  once; if nothing is detected on the first pass the selection does not move.  The passes
  after the first never navigate.  Down is tested first: when both bits go from 0 to 1
  on the same pass only Down is acted on, and Up is not acted on for as long as it stays
  held.
\<close>

theorem C5_edge_detection:
  assumes "\<forall>q \<in> set ps. joy q = joy p"
  shows "(joy p AND JOYSTICK_DOWN jb \<noteq> 0 \<and> previous_joy AND JOYSTICK_DOWN jb = 0 \<longrightarrow>
           (\<exists>m'. handle_menu_loop jb previous_joy (p # ps) m = Some (Polling (joy p) m')
              \<and> selectedIndex m' = (selectedIndex m + 1) smod MENU_ITEM_COUNT))
     \<and> (\<not> (joy p AND JOYSTICK_DOWN jb \<noteq> 0 \<and> previous_joy AND JOYSTICK_DOWN jb = 0)
          \<and> joy p AND JOYSTICK_UP jb \<noteq> 0 \<and> previous_joy AND JOYSTICK_UP jb = 0 \<longrightarrow>
           (\<exists>m'. handle_menu_loop jb previous_joy (p # ps) m = Some (Polling (joy p) m')
              \<and> selectedIndex m'
                   = (selectedIndex m - 1 + MENU_ITEM_COUNT) smod MENU_ITEM_COUNT))
     \<and> (\<not> (joy p AND JOYSTICK_DOWN jb \<noteq> 0 \<and> previous_joy AND JOYSTICK_DOWN jb = 0)
          \<and> \<not> (joy p AND JOYSTICK_UP jb \<noteq> 0 \<and> previous_joy AND JOYSTICK_UP jb = 0)
          \<and> \<not> (joy p AND JOYSTICK_CENTER jb \<noteq> 0 \<and> previous_joy AND JOYSTICK_CENTER jb = 0)
          \<longrightarrow>
           (\<exists>m'. handle_menu_loop jb previous_joy (p # ps) m = Some (Polling (joy p) m')
              \<and> selectedIndex m' = selectedIndex m))"
proof -
  have rest: "\<exists>m'. handle_menu_loop jb previous_joy (p # ps) m = Some (Polling (joy p) m')
                 \<and> selectedIndex m' = i"
    if "handle_menu_poll jb previous_joy p m = Some (Polling (joy p) m1)"
      and "selectedIndex m1 = i" for m1 i
  proof -
    from handle_menu_loop_held [OF assms, of jb m1] obtain m' where
      "handle_menu_loop jb (joy p) ps m1 = Some (Polling (joy p) m')"
      and "selectedIndex m' = selectedIndex m1"
      by blast
    with that show ?thesis
      by simp
  qed
  show ?thesis
  proof (intro conjI impI)
    assume "joy p AND JOYSTICK_DOWN jb \<noteq> 0 \<and> previous_joy AND JOYSTICK_DOWN jb = 0"
    then obtain m1 where "handle_menu_poll jb previous_joy p m = Some (Polling (joy p) m1)"
      and "selectedIndex m1 = (selectedIndex m + 1) smod MENU_ITEM_COUNT"
      using handle_menu_poll_down [of p jb previous_joy m] by blast
    then show "\<exists>m'. handle_menu_loop jb previous_joy (p # ps) m = Some (Polling (joy p) m')
              \<and> selectedIndex m' = (selectedIndex m + 1) smod MENU_ITEM_COUNT"
      by (rule rest)
  next
    assume "\<not> (joy p AND JOYSTICK_DOWN jb \<noteq> 0 \<and> previous_joy AND JOYSTICK_DOWN jb = 0)
          \<and> joy p AND JOYSTICK_UP jb \<noteq> 0 \<and> previous_joy AND JOYSTICK_UP jb = 0"
    then obtain m1 where "handle_menu_poll jb previous_joy p m = Some (Polling (joy p) m1)"
      and "selectedIndex m1 = (selectedIndex m - 1 + MENU_ITEM_COUNT) smod MENU_ITEM_COUNT"
      using handle_menu_poll_up [of p jb previous_joy m] by blast
    then show "\<exists>m'. handle_menu_loop jb previous_joy (p # ps) m = Some (Polling (joy p) m')
              \<and> selectedIndex m'
                   = (selectedIndex m - 1 + MENU_ITEM_COUNT) smod MENU_ITEM_COUNT"
      by (rule rest)
  next
    assume "\<not> (joy p AND JOYSTICK_DOWN jb \<noteq> 0 \<and> previous_joy AND JOYSTICK_DOWN jb = 0)
          \<and> \<not> (joy p AND JOYSTICK_UP jb \<noteq> 0 \<and> previous_joy AND JOYSTICK_UP jb = 0)
          \<and> \<not> (joy p AND JOYSTICK_CENTER jb \<noteq> 0 \<and> previous_joy AND JOYSTICK_CENTER jb = 0)"
    then obtain m1 where "handle_menu_poll jb previous_joy p m = Some (Polling (joy p) m1)"
      and "selectedIndex m1 = selectedIndex m"
      using handle_menu_poll_idle [of p jb previous_joy m] by blast
    then show "\<exists>m'. handle_menu_loop jb previous_joy (p # ps) m = Some (Polling (joy p) m')
              \<and> selectedIndex m' = selectedIndex m"
      by (rule rest)
  qed
qed

theorem C5_edge_detection_witness:
  "joy (level_poll 4) = 4
   \<and> joy (level_poll 4) AND JOYSTICK_DOWN example_bits \<noteq> 0
   \<and> 0 AND JOYSTICK_DOWN example_bits = 0
   \<and> (\<exists>m'. handle_menu_loop example_bits 0 [level_poll 4, level_poll 4, level_poll 4]
              boot_machine = Some (Polling 4 m')
          \<and> selectedIndex m' = 1)"
proof -
  have held: "\<forall>q \<in> set [level_poll 4, level_poll 4]. joy q = joy (level_poll 4)"
    by simp
  have down: "joy (level_poll 4) AND JOYSTICK_DOWN example_bits \<noteq> 0
              \<and> 0 AND JOYSTICK_DOWN example_bits = 0"
    by (simp add: level_poll_def example_bits_def)
  have j: "joy (level_poll 4) = 4"
    by (simp add: level_poll_def)
  have i: "(selectedIndex boot_machine + 1) smod MENU_ITEM_COUNT = 1"
    by (simp add: boot_machine_def MENU_ITEM_COUNT_def smod_int_alt_def)
  from C5_edge_detection [OF held, of example_bits 0 boot_machine] down
  obtain m' where
    "handle_menu_loop example_bits 0 (level_poll 4 # [level_poll 4, level_poll 4]) boot_machine
       = Some (Polling (joy (level_poll 4)) m')"
    and "selectedIndex m' = (selectedIndex boot_machine + 1) smod MENU_ITEM_COUNT"
    by blast
  then have "\<exists>m'. handle_menu_loop example_bits 0 [level_poll 4, level_poll 4, level_poll 4]
              boot_machine = Some (Polling 4 m') \<and> selectedIndex m' = 1"
    by (simp add: i j)
  with j down show ?thesis
    by blast
qed

text \<open>The claim as stated fails for Up when Down goes from 0 to 1 on the same pass.  From
  index 0, after a pass with the joystick released, two passes with both bits set
  (raw value 6) leave the index at 1: Down was acted on once, and Up, whose bit also went
  from 0 to 1 and stayed set, was not acted on (alone it would have given index 4).\<close>

theorem C5_up_with_down_counterexample:
  "map_option (selectedIndex \<circ> after)
     (handle_menu example_bits [level_poll 0, level_poll 6] boot_machine) = Some 1
   \<and> map_option (selectedIndex \<circ> after)
     (handle_menu example_bits [level_poll 0, level_poll 6, level_poll 6] boot_machine) = Some 1
   \<and> map_option (selectedIndex \<circ> after)
     (handle_menu example_bits [level_poll 0, level_poll 2, level_poll 2] boot_machine) = Some 4
   \<and> (6 :: uint8_t) AND JOYSTICK_UP example_bits \<noteq> 0
   \<and> (0 :: uint8_t) AND JOYSTICK_UP example_bits = 0"
proof -
  have j: "joy (level_poll 0) = 0" "joy (level_poll 6) = 6" "joy (level_poll 2) = 2"
    by (simp_all add: level_poll_def)
  have bits: "JOYSTICK_DOWN example_bits = 4" "JOYSTICK_UP example_bits = 2"
    "JOYSTICK_CENTER example_bits = 1"
    by (simp_all add: example_bits_def)
  obtain m1 where p1: "handle_menu_poll example_bits 0xFF (level_poll 0) boot_machine
                         = Some (Polling 0 m1)"
    and s1: "selectedIndex m1 = 0"
    using handle_menu_poll_idle [of "level_poll 0" example_bits "0xFF" boot_machine]
    by (auto simp add: j bits boot_machine_def)
  obtain m2 where p2: "handle_menu_poll example_bits 0 (level_poll 6) m1 = Some (Polling 6 m2)"
    and s2: "selectedIndex m2 = 1"
    using handle_menu_poll_down [of "level_poll 6" example_bits 0 m1]
    by (auto simp add: j bits s1 MENU_ITEM_COUNT_def smod_int_alt_def)
  obtain m3 where p3: "handle_menu_loop example_bits 6 [level_poll 6] m2 = Some (Polling 6 m3)"
    and s3: "selectedIndex m3 = 1"
    using handle_menu_loop_held [of "[level_poll 6]" 6 example_bits m2]
    by (auto simp add: j s2)
  obtain m4 where p4: "handle_menu_poll example_bits 0 (level_poll 2) m1 = Some (Polling 2 m4)"
    and s4: "selectedIndex m4 = 4"
    using handle_menu_poll_up [of "level_poll 2" example_bits 0 m1]
    by (auto simp add: j bits s1 MENU_ITEM_COUNT_def smod_int_alt_def)
  obtain m5 where p5: "handle_menu_loop example_bits 2 [level_poll 2] m4 = Some (Polling 2 m5)"
    and s5: "selectedIndex m5 = 4"
    using handle_menu_loop_held [of "[level_poll 2]" 2 example_bits m4]
    by (auto simp add: j s4)
  have a: "handle_menu example_bits [level_poll 0, level_poll 6] boot_machine
             = Some (Polling 6 m2)"
    by (simp add: handle_menu_def p1 p2)
  have b: "handle_menu example_bits [level_poll 0, level_poll 6, level_poll 6] boot_machine
             = Some (Polling 6 m3)"
    using p3 by (simp add: handle_menu_def p1 p2)
  have c: "handle_menu example_bits [level_poll 0, level_poll 2, level_poll 2] boot_machine
             = Some (Polling 2 m5)"
    using p5 by (simp add: handle_menu_def p1 p4)
  show ?thesis
    by (simp add: a b c s2 s3 s5 bits)
qed

end
